theory Spec2Isabelle
  imports
    Main
    "HOL-Library.Word"
    "HOL-Library.Char_ord"
    "HOL-Library.List_Lexorder"
begin

unbundle bit_operations_syntax

section \<open>The file tree seen by the server\<close>

text \<open>
  The handlers of \<^verbatim>\<open>main.py\<close> work on the process's file system through
  \<^verbatim>\<open>os.path.join\<close>, \<^verbatim>\<open>os.path.exists\<close>, \<^verbatim>\<open>os.remove\<close>,
  \<^verbatim>\<open>os.listdir\<close> and \<^verbatim>\<open>open(..., "wb")\<close>. The file system is a list of
  entries, each an absolute path (its names from the root) with a node: a regular file
  with its bytes, or a directory. The root is always a directory. Paths are POSIX
  paths with the name-length limits of Linux; symbolic links and permissions are left
  out. Names are
  byte strings, compared bytewise (for UTF-8 this is the order of code points).
\<close>

type_synonym byte = "8 word"

datatype node = File "byte list" | Dir

type_synonym path = "string list"

type_synonym filesystem = "(path \<times> node) list"

definition fs_lookup :: "filesystem \<Rightarrow> path \<Rightarrow> node option" where
  "fs_lookup fs p = (if p = [] then Some Dir else map_of fs p)"

text \<open>\<^verbatim>\<open>str.split(sep)\<close> for a one-character separator.\<close>

fun split_on :: "char \<Rightarrow> string \<Rightarrow> string list" where
  "split_on sep [] = [[]]"
| "split_on sep (c # cs) =
     (if c = sep then [] # split_on sep cs
      else (case split_on sep cs of [] \<Rightarrow> [[c]] | w # ws \<Rightarrow> (c # w) # ws))"

text \<open>
  The limits of Linux on names: a path component has at most \<open>NAME_MAX\<close> bytes, and a
  path string, with its terminating NUL, at most \<open>PATH_MAX\<close> bytes. A longer name fails
  with ENAMETOOLONG (OSError 36) in every system call that takes the path.
\<close>

definition NAME_MAX :: nat where
  "NAME_MAX = 255"

definition PATH_MAX :: nat where
  "PATH_MAX = 4096"

text \<open>
  Path resolution by the kernel, one component at a time from the directory \<open>cur\<close>:
  looking anything up in \<open>cur\<close> needs \<open>cur\<close> to be a directory (otherwise ENOENT or
  ENOTDIR, here \<open>None\<close>); an empty component and \<^verbatim>\<open>.\<close> stay, \<^verbatim>\<open>..\<close> goes to
  the parent (the root is its own parent), a name longer than \<open>NAME_MAX\<close> fails, any
  other name goes down. The last name need not exist: the caller looks it up.
\<close>

fun walk :: "filesystem \<Rightarrow> path \<Rightarrow> string list \<Rightarrow> path option" where
  "walk fs cur [] = Some cur"
| "walk fs cur (c # cs) =
     (if fs_lookup fs cur \<noteq> Some Dir then None
      else if c = [] \<or> c = ''.'' then walk fs cur cs
      else if c = ''..'' then walk fs (butlast cur) cs
      else if length c > NAME_MAX then None
      else walk fs (cur @ [c]) cs)"

text \<open>
  A path string is resolved from the root when it starts with a slash and from the
  working directory otherwise. The empty path does not resolve (ENOENT), nor does a
  path with an embedded NUL character (Python raises ValueError before any system call),
  nor a path string of \<open>PATH_MAX\<close> bytes or more.
\<close>

definition resolve :: "filesystem \<Rightarrow> path \<Rightarrow> string \<Rightarrow> path option" where
  "resolve fs wd p =
     (if p = [] \<or> CHR 0x00 \<in> set p \<or> length p \<ge> PATH_MAX then None
      else walk fs (if hd p = CHR ''/'' then [] else wd) (split_on CHR ''/'' p))"

text \<open>\<^verbatim>\<open>posixpath.join(a, b)\<close> with two arguments.\<close>

definition os_path_join :: "string \<Rightarrow> string \<Rightarrow> string" where
  "os_path_join a b =
     (if b \<noteq> [] \<and> hd b = CHR ''/'' then b
      else if a = [] \<or> last a = CHR ''/'' then a @ b
      else a @ ''/'' @ b)"

text \<open>
  \<^verbatim>\<open>os.path.exists\<close>: true when \<^verbatim>\<open>os.stat\<close> succeeds, that is when the path
  resolves to a file or a directory; every failure is \<^verbatim>\<open>False\<close>.
\<close>

definition os_path_exists :: "filesystem \<Rightarrow> path \<Rightarrow> string \<Rightarrow> bool" where
  "os_path_exists fs wd p =
     (case resolve fs wd p of None \<Rightarrow> False | Some q \<Rightarrow> fs_lookup fs q \<noteq> None)"

text \<open>
  The operating-system errors the handlers can meet. None of them is caught in
  \<^verbatim>\<open>main.py\<close>: the framework answers such a request with HTTP 500.
  \<open>NoSuchPath\<close> stands for every failure to resolve the path: FileNotFoundError,
  NotADirectoryError, the OSError of a name that is too long and the ValueError of an
  embedded NUL; \<open>IsADirectory\<close> for IsADirectoryError.
\<close>

datatype os_error = NoSuchPath | IsADirectory

text \<open>\<^verbatim>\<open>os.remove\<close> unlinks a regular file and raises on a directory.\<close>

definition os_remove :: "filesystem \<Rightarrow> path \<Rightarrow> string \<Rightarrow> os_error + filesystem" where
  "os_remove fs wd p =
     (case resolve fs wd p of
        None \<Rightarrow> Inl NoSuchPath
      | Some q \<Rightarrow>
          (case fs_lookup fs q of
             None \<Rightarrow> Inl NoSuchPath
           | Some Dir \<Rightarrow> Inl IsADirectory
           | Some (File _) \<Rightarrow> Inr (filter (\<lambda>(k, _). k \<noteq> q) fs)))"

text \<open>
  \<^verbatim>\<open>os.listdir\<close>: the names of the entries of a directory, without \<^verbatim>\<open>.\<close> and
  \<^verbatim>\<open>..\<close>, each once, in no promised order.
\<close>

definition dir_entries :: "filesystem \<Rightarrow> path \<Rightarrow> string list" where
  "dir_entries fs q =
     remdups (map (\<lambda>(k, _). last k) (filter (\<lambda>(k, _). k \<noteq> [] \<and> butlast k = q) fs))"

definition os_listdir :: "filesystem \<Rightarrow> path \<Rightarrow> string \<Rightarrow> os_error + string list" where
  "os_listdir fs wd p =
     (case resolve fs wd p of
        None \<Rightarrow> Inl NoSuchPath
      | Some q \<Rightarrow>
          (if fs_lookup fs q = Some Dir then Inr (dir_entries fs q) else Inl NoSuchPath))"

text \<open>
  \<^verbatim>\<open>with open(p, "wb") as buffer: shutil.copyfileobj(src, buffer)\<close>, with the source
  at position 0: the file is created, or truncated when it exists, and receives all
  the bytes. Opening a directory for writing raises, and so does a path that does not
  resolve (a missing directory, a name that is too long).
\<close>

definition open_wb_copy :: "filesystem \<Rightarrow> path \<Rightarrow> string \<Rightarrow> byte list \<Rightarrow> os_error + filesystem" where
  "open_wb_copy fs wd p bytes =
     (case resolve fs wd p of
        None \<Rightarrow> Inl NoSuchPath
      | Some q \<Rightarrow>
          (if fs_lookup fs q = Some Dir then Inl IsADirectory
           else if fs_lookup fs (butlast q) \<noteq> Some Dir then Inl NoSuchPath
           else Inr ((q, File bytes) # filter (\<lambda>(k, _). k \<noteq> q) fs)))"

section \<open>Library functions used by the handlers\<close>

text \<open>\<^verbatim>\<open>str.rfind(c)\<close>: the highest index of \<open>c\<close>, or \<open>-1\<close>.\<close>

fun rfind :: "char \<Rightarrow> string \<Rightarrow> int" where
  "rfind c [] = - 1"
| "rfind c (x # xs) =
     (let r = rfind c xs in if 0 \<le> r then r + 1 else if x = c then 0 else - 1)"

text \<open>
  The loop of \<^verbatim>\<open>genericpath._splitext\<close> that skips the leading dots of the last
  component: from index \<open>i\<close> up to the last dot at \<open>d\<close>, it answers whether a character
  other than a dot comes first.
\<close>

function skip_dots :: "string \<Rightarrow> nat \<Rightarrow> nat \<Rightarrow> bool" where
  "skip_dots p i d =
     (if i < d then (if p ! i \<noteq> CHR ''.'' then True else skip_dots p (Suc i) d) else False)"
  by pat_completeness auto
termination
  by (relation "measure (\<lambda>(p, i, d). d - i)") auto

declare skip_dots.simps [simp del]

text \<open>\<^verbatim>\<open>os.path.splitext\<close> (posixpath: separator \<^verbatim>\<open>/\<close>, no alternative separator).\<close>

definition splitext :: "string \<Rightarrow> string \<times> string" where
  "splitext p =
     (let sepIndex = rfind CHR ''/'' p;
          dotIndex = rfind CHR ''.'' p
      in if dotIndex > sepIndex \<and> skip_dots p (nat (sepIndex + 1)) (nat dotIndex)
         then (take (nat dotIndex) p, drop (nat dotIndex) p)
         else (p, []))"

text \<open>
  \<^verbatim>\<open>uuid.uuid4()\<close> draws 16 random bytes, read as a 128-bit integer \<open>r\<close>, and
  sets the variant and version bits; \<^verbatim>\<open>.hex\<close> prints the integer with
  \<^verbatim>\<open>'%032x'\<close>. The random draw is an argument of the model.
\<close>

definition uuid4 :: "128 word \<Rightarrow> 128 word" where
  "uuid4 r =
     (((r AND NOT (push_bit 48 0xc000)) OR push_bit 48 0x8000)
        AND NOT (push_bit 64 0xf000)) OR push_bit 76 4"

definition hexdigit :: "nat \<Rightarrow> char" where
  "hexdigit n = ''0123456789abcdef'' ! n"

definition hex :: "128 word \<Rightarrow> string" where
  "hex w = map (\<lambda>i. hexdigit (unat (drop_bit (4 * (31 - i)) w AND 0xF))) [0..<32]"

text \<open>
  A Python slice \<^verbatim>\<open>xs[start:stop]\<close>: a negative bound counts from the end, and
  both bounds are clamped to the list.
\<close>

definition py_slice :: "'a list \<Rightarrow> int \<Rightarrow> int \<Rightarrow> 'a list" where
  "py_slice xs start stop =
     (let n = int (length xs);
          lo = (if start < 0 then max (start + n) 0 else min start n);
          hi = (if stop < 0 then max (stop + n) 0 else min stop n)
      in take (nat (hi - lo)) (drop (nat lo) xs))"

section \<open>Configuration, state and results\<close>

text \<open>
  \<open>UPLOAD_DIR\<close> and \<open>MAX_FILE_SIZE_MB\<close> are read from the configuration at start-up;
  \<open>cwd\<close> is the working directory of the process, against which a relative
  \<open>UPLOAD_DIR\<close> is resolved.
\<close>

record env =
  UPLOAD_DIR :: string
  MAX_FILE_SIZE_MB :: int
  cwd :: path

text \<open>
  The log file written by \<^verbatim>\<open>logging\<close> is kept apart from the file tree (it lives
  in \<open>LOG_DIR\<close>, taken to be disjoint from the modelled tree). The messages of the
  source are Russian sentences around a file name; each is a constructor here.
\<close>

datatype level = INFO | ERROR

datatype message =
    Unsupported_format string
  | Exceeds_size string
  | Image_uploaded string
  | File_deleted string
  | Not_found_on_delete string

record state =
  disk :: filesystem
  logged :: "(level \<times> message) list"

text \<open>
  The detail texts of the responses (Russian in the source): unsupported file type,
  file exceeds the allowed size, file not found, file deleted.
\<close>

datatype detail = Unsupported_type | Too_large | File_not_found | File_removed

datatype error = HTTPException int detail | OSError os_error

record UploadFile =
  filename :: string
  content_type :: "string option"
  fileobj :: "byte list"

record image_item =
  name :: string
  url :: string

record images_view =
  images :: "image_item list"
  page :: int
  has_next :: bool

record delete_result =
  deleted :: "string list"
  not_found :: "string list"

definition log_append :: "level \<Rightarrow> message \<Rightarrow> state \<Rightarrow> state" where
  "log_append l m s = s\<lparr>logged := logged s @ [(l, m)]\<rparr>"

section \<open>The handlers\<close>

text \<open>
  The handlers are coroutines without a suspension point, so each runs from its first
  statement to its return or exception without interleaving; each is a function of its
  arguments and the state before, giving the result and the state after.

  \<^verbatim>\<open>POST /upload\<close>. The declared media type is \<open>None\<close> when the part carries no
  Content-Type header. \<open>file_size\<close> is the position after seeking to the end of the
  spooled upload, that is the number of its bytes; the copy then starts from position 0.
  The result is the value under the key \<^verbatim>\<open>url\<close> of the returned dictionary, or the
  exception raised.
\<close>

definition upload_file :: "env \<Rightarrow> 128 word \<Rightarrow> UploadFile \<Rightarrow> state \<Rightarrow> (error + string) \<times> state" where
  "upload_file e rnd f s =
     (if content_type f \<notin> {Some ''image/jpeg'', Some ''image/png'', Some ''image/gif''}
      then (Inl (HTTPException 400 Unsupported_type),
            log_append ERROR (Unsupported_format (filename f)) s)
      else
        let file_size = int (length (fileobj f)) in
        if file_size > MAX_FILE_SIZE_MB e * 1024 * 1024
        then (Inl (HTTPException 400 Too_large),
              log_append ERROR (Exceeds_size (filename f)) s)
        else
          let ext = snd (splitext (filename f));
              unique_name = hex (uuid4 rnd) @ ext;
              file_path = os_path_join (UPLOAD_DIR e) unique_name
          in (case open_wb_copy (disk s) (cwd e) file_path (fileobj f) of
                Inl err \<Rightarrow> (Inl (OSError err), s)
              | Inr fs' \<Rightarrow>
                  (Inr (''/images/'' @ unique_name),
                   log_append INFO (Image_uploaded unique_name) (s\<lparr>disk := fs'\<rparr>))))"

text \<open>\<^verbatim>\<open>GET /images\<close>. The handler reads the directory and changes nothing.\<close>

definition images_page :: "env \<Rightarrow> int \<Rightarrow> state \<Rightarrow> error + images_view" where
  "images_page e pg s =
     (let per_page = 50 in
      case os_listdir (disk s) (cwd e) (UPLOAD_DIR e) of
        Inl err \<Rightarrow> Inl (OSError err)
      | Inr entries \<Rightarrow>
          let files = sort entries;
              total_files = int (length files);
              start = (pg - 1) * per_page;
              endp = start + per_page;
              paginated_files = py_slice files start endp;
              imgs = map (\<lambda>f. \<lparr>name = f, url = ''/images/'' @ f\<rparr>) paginated_files;
              has_nxt = (endp < total_files)
          in Inr \<lparr>images = imgs, page = pg, has_next = has_nxt\<rparr>)"

text \<open>
  \<^verbatim>\<open>POST /delete-selected\<close>. The loop over the names carries the two result lists
  and the state; an exception of \<^verbatim>\<open>os.remove\<close> ends the request where it is
  raised, with the deletions made so far in place.
\<close>

fun delete_loop ::
  "env \<Rightarrow> string list \<Rightarrow> string list \<Rightarrow> string list \<Rightarrow> state \<Rightarrow> (error + delete_result) \<times> state" where
  "delete_loop e [] dels nf s = (Inr \<lparr>deleted = dels, not_found = nf\<rparr>, s)"
| "delete_loop e (fname # rest) dels nf s =
     (let file_path = os_path_join (UPLOAD_DIR e) fname in
      if os_path_exists (disk s) (cwd e) file_path
      then (case os_remove (disk s) (cwd e) file_path of
              Inl err \<Rightarrow> (Inl (OSError err), s)
            | Inr fs' \<Rightarrow>
                delete_loop e rest (dels @ [fname]) nf
                  (log_append INFO (File_deleted fname) (s\<lparr>disk := fs'\<rparr>)))
      else delete_loop e rest dels (nf @ [fname])
             (log_append ERROR (Not_found_on_delete fname) s))"

definition delete_selected :: "env \<Rightarrow> string list \<Rightarrow> state \<Rightarrow> (error + delete_result) \<times> state" where
  "delete_selected e filenames s = delete_loop e filenames [] [] s"

text \<open>
  \<^verbatim>\<open>POST /delete/{filename}\<close>, as a function of the string the handler receives.
\<close>

definition delete_image :: "env \<Rightarrow> string \<Rightarrow> state \<Rightarrow> (error + detail) \<times> state" where
  "delete_image e fname s =
     (let file_path = os_path_join (UPLOAD_DIR e) fname in
      if os_path_exists (disk s) (cwd e) file_path
      then (case os_remove (disk s) (cwd e) file_path of
              Inl err \<Rightarrow> (Inl (OSError err), s)
            | Inr fs' \<Rightarrow>
                (Inr File_removed, log_append INFO (File_deleted fname) (s\<lparr>disk := fs'\<rparr>)))
      else (Inl (HTTPException 404 File_not_found),
            log_append ERROR (Not_found_on_delete fname) s))"

section \<open>Notions used to state the properties\<close>

text \<open>
  A bare filename: one path component that names an entry, with no separator and
  neither \<^verbatim>\<open>.\<close> nor \<^verbatim>\<open>..\<close>.
\<close>

definition is_bare :: "string \<Rightarrow> bool" where
  "is_bare n \<longleftrightarrow> n \<noteq> [] \<and> n \<noteq> ''.'' \<and> n \<noteq> ''..'' \<and> CHR ''/'' \<notin> set n"

text \<open>
  The storage directory is the directory that \<open>UPLOAD_DIR\<close> resolves to. The module
  creates it at start-up (\<^verbatim>\<open>os.makedirs(UPLOAD_DIR, exist_ok=True)\<close>) and no handler
  removes a directory.
\<close>

definition is_storage :: "filesystem \<Rightarrow> env \<Rightarrow> path \<Rightarrow> bool" where
  "is_storage fs e d \<longleftrightarrow>
     resolve fs (cwd e) (UPLOAD_DIR e) = Some d \<and> fs_lookup fs d = Some Dir"

text \<open>
  A name that the operating system refuses when it is joined to \<open>UPLOAD_DIR\<close>,
  whatever the file tree holds: it has an embedded NUL, it is too long for a path
  component, or the joined path is too long.
\<close>

definition name_refused :: "env \<Rightarrow> string \<Rightarrow> bool" where
  "name_refused e n \<longleftrightarrow>
     CHR 0x00 \<in> set n \<or> length n > NAME_MAX
       \<or> length (os_path_join (UPLOAD_DIR e) n) \<ge> PATH_MAX"

text \<open>A path lies outside the directory \<open>d\<close> when \<open>d\<close> is not a prefix of it.\<close>

definition outside :: "path \<Rightarrow> path \<Rightarrow> bool" where
  "outside d r \<longleftrightarrow> take (length d) r \<noteq> d"

text \<open>
  The path that a name supplied to a deletion handler stands for, as the handler
  computes it: the name joined to \<open>UPLOAD_DIR\<close> and resolved.
\<close>

definition target :: "filesystem \<Rightarrow> env \<Rightarrow> string \<Rightarrow> path option" where
  "target fs e n = resolve fs (cwd e) (os_path_join (UPLOAD_DIR e) n)"

definition targets_directory :: "filesystem \<Rightarrow> env \<Rightarrow> string \<Rightarrow> bool" where
  "targets_directory fs e n =
     (case target fs e n of None \<Rightarrow> False | Some q \<Rightarrow> fs_lookup fs q = Some Dir)"

text \<open>
  The two result lists of a bulk deletion read off a list of outcomes, one per
  occurrence of a name: \<open>True\<close> for deleted, \<open>False\<close> for not found.
\<close>

definition pick :: "bool \<Rightarrow> string list \<Rightarrow> bool list \<Rightarrow> string list" where
  "pick b ns bs = map fst (filter (\<lambda>(n, b'). b' = b) (zip ns bs))"

text \<open>
  The specification's wording of the extension: the last dot-delimited suffix of the
  name, and the empty string when the name has no dot.
\<close>

definition last_dot_suffix :: "string \<Rightarrow> string" where
  "last_dot_suffix n =
     (if CHR ''.'' \<in> set n
      then CHR ''.'' # rev (takeWhile (\<lambda>c. c \<noteq> CHR ''.'') (rev n))
      else [])"

text \<open>The last path component of a name (\<^verbatim>\<open>posixpath.basename\<close>).\<close>

definition basename :: "string \<Rightarrow> string" where
  "basename n = rev (takeWhile (\<lambda>c. c \<noteq> CHR ''/'') (rev n))"

text \<open>
  A name has an extension, in the sense of \<^verbatim>\<open>os.path.splitext\<close>, when its last path
  component, after its leading dots, still contains a dot.
\<close>

definition has_extension :: "string \<Rightarrow> bool" where
  "has_extension n \<longleftrightarrow> CHR ''.'' \<in> set (dropWhile (\<lambda>c. c = CHR ''.'') (basename n))"

text \<open>The characters of a lower-case hexadecimal numeral.\<close>

definition hexdigits :: "char set" where
  "hexdigits = set ''0123456789abcdef''"

text \<open>The entry of the gallery for one file name, as the listing handler builds it.\<close>

definition image_of :: "string \<Rightarrow> image_item" where
  "image_of f = \<lparr>name = f, url = ''/images/'' @ f\<rparr>"

text \<open>
  What a deletion handler does with one name, by the node the name stands for: a
  regular file is removed, a missing path is reported, a directory makes
  \<^verbatim>\<open>os.remove\<close> raise.
\<close>

datatype outcome = Removed path | Missing | Raises

definition outcome_of :: "filesystem \<Rightarrow> env \<Rightarrow> string \<Rightarrow> outcome" where
  "outcome_of fs e n =
     (case target fs e n of
        None \<Rightarrow> Missing
      | Some q \<Rightarrow> (case fs_lookup fs q of None \<Rightarrow> Missing | Some Dir \<Rightarrow> Raises | Some (File _) \<Rightarrow> Removed q))"

subsection \<open>A small installation used for concrete runs\<close>

text \<open>
  The server runs in \<^verbatim>\<open>/srv\<close> with the default configuration, so the storage
  directory is \<^verbatim>\<open>/srv/images\<close>; it holds two images, and \<^verbatim>\<open>/etc/passwd\<close>
  exists outside it.
\<close>

definition ex_env :: env where
  "ex_env = \<lparr>UPLOAD_DIR = ''images'', MAX_FILE_SIZE_MB = 5, cwd = [''srv'']\<rparr>"

definition ex_disk :: filesystem where
  "ex_disk =
     [([''etc''], Dir),
      ([''etc'', ''passwd''], File [0x72, 0x6f, 0x6f, 0x74]),
      ([''srv''], Dir),
      ([''srv'', ''images''], Dir),
      ([''srv'', ''images'', ''a.png''], File [0x89, 0x50]),
      ([''srv'', ''images'', ''b.png''], File [0x89, 0x51])]"

definition ex_state :: state where
  "ex_state = \<lparr>disk = ex_disk, logged = []\<rparr>"

text \<open>
  Uploads used below: a picture with two dots in its name, a picture whose name is only
  a leading dot and a word, a text file, two uploads of 5 MiB and one byte, and one of
  exactly 5 MiB. \<open>ex_rnd\<close> is the random draw of \<^verbatim>\<open>uuid4\<close>.
\<close>

definition ex_upload :: UploadFile where
  "ex_upload = \<lparr>filename = ''holiday.photo.png'', content_type = Some ''image/png'',
                 fileobj = [0x89, 0x50, 0x4e, 0x47]\<rparr>"

definition ex_dotfile :: UploadFile where
  "ex_dotfile = \<lparr>filename = ''.png'', content_type = Some ''image/png'',
                  fileobj = [0x89, 0x50, 0x4e, 0x47]\<rparr>"

definition ex_rnd :: "128 word" where
  "ex_rnd = 0x0123456789abcdef0123456789abcdef"

definition ex_text :: UploadFile where
  "ex_text = \<lparr>filename = ''notes.txt'', content_type = Some ''text/plain'',
               fileobj = [0x68, 0x69]\<rparr>"

definition ex_oversize :: UploadFile where
  "ex_oversize = \<lparr>filename = ''big.png'', content_type = Some ''image/png'',
                   fileobj = replicate (5 * 1024 * 1024 + 1) 0\<rparr>"

definition ex_oversize_text :: UploadFile where
  "ex_oversize_text = \<lparr>filename = ''big.txt'', content_type = Some ''text/plain'',
                        fileobj = replicate (5 * 1024 * 1024 + 1) 0\<rparr>"

definition ex_full_size :: UploadFile where
  "ex_full_size = \<lparr>filename = ''full.png'', content_type = Some ''image/png'',
                    fileobj = replicate (5 * 1024 * 1024) 0\<rparr>"

text \<open>An upload whose original name has an extension of 301 bytes.\<close>

definition ex_long_name :: UploadFile where
  "ex_long_name = \<lparr>filename = ''a.'' @ replicate 300 CHR ''x'', content_type = Some ''image/png'',
                    fileobj = [0x89, 0x50, 0x4e, 0x47]\<rparr>"

text \<open>
  A second state of the same installation: the storage directory holds the 51 files
  \<^verbatim>\<open>img00.png\<close> to \<^verbatim>\<open>img50.png\<close>, listed by the file system in descending order.
\<close>

definition ex_image_name :: "nat \<Rightarrow> string" where
  "ex_image_name i = ''img'' @ [hexdigit (i div 10), hexdigit (i mod 10)] @ ''.png''"

definition ex_gallery :: state where
  "ex_gallery =
     \<lparr>disk = [([''srv''], Dir), ([''srv'', ''images''], Dir)]
               @ map (\<lambda>i. ([''srv'', ''images'', ex_image_name i], File [])) (rev [0..<51]),
      logged = []\<rparr>"

section \<open>Path resolution\<close>

lemma split_on_nonempty: "split_on c xs \<noteq> []"
  by (induction xs) (auto split: list.splits)

lemma split_on_no_sep: "c \<notin> set xs \<Longrightarrow> split_on c xs = [xs]"
  by (induction xs) auto

lemma split_on_append_sep:
  "c \<notin> set ys \<Longrightarrow> split_on c (xs @ c # ys) = split_on c xs @ [ys]"
proof (induction xs)
  case Nil
  then show ?case by (simp add: split_on_no_sep)
next
  case (Cons x xs)
  then show ?case
    by (cases "split_on c xs") (auto simp: split_on_nonempty)
qed

lemma walk_append:
  "walk fs cur (xs @ ys) = (case walk fs cur xs of None \<Rightarrow> None | Some c \<Rightarrow> walk fs c ys)"
  by (induction xs arbitrary: cur) auto

lemma walk_bare:
  "is_bare n \<Longrightarrow>
     walk fs cur [n] =
       (if fs_lookup fs cur = Some Dir \<and> length n \<le> NAME_MAX then Some (cur @ [n]) else None)"
  by (simp add: is_bare_def)

lemma walk_empty_component:
  "walk fs cur [[]] = (if fs_lookup fs cur = Some Dir then Some cur else None)"
  by simp

lemma walk_same_dirs:
  assumes "\<And>p. (fs_lookup fs' p = Some Dir) = (fs_lookup fs p = Some Dir)"
  shows "walk fs' cur cs = walk fs cur cs"
proof (induction cs arbitrary: cur)
  case Nil
  show ?case by simp
next
  case (Cons c cs)
  show ?case
    unfolding walk.simps assms Cons.IH ..
qed

lemma resolve_same_dirs:
  assumes "\<And>p. (fs_lookup fs' p = Some Dir) = (fs_lookup fs p = Some Dir)"
  shows "resolve fs' wd p = resolve fs wd p"
  unfolding resolve_def walk_same_dirs [of fs' fs, OF assms] ..

lemma walk_snoc_bare:
  assumes "is_bare n"
  shows "walk fs c0 (cs @ [n]) =
           (case walk fs c0 cs of None \<Rightarrow> None
            | Some d \<Rightarrow>
                if fs_lookup fs d = Some Dir \<and> length n \<le> NAME_MAX then Some (d @ [n]) else None)"
  unfolding walk_append walk_bare [OF assms] ..

lemma walk_snoc_empty:
  "walk fs c0 (cs @ [[]]) =
     (case walk fs c0 cs of None \<Rightarrow> None
      | Some d \<Rightarrow> if fs_lookup fs d = Some Dir then Some d else None)"
  unfolding walk_append walk_empty_component ..

lemma resolve_join_bare:
  assumes "is_bare n" and "u \<noteq> []"
  shows "resolve fs wd (os_path_join u n) =
           (if CHR 0x00 \<in> set n \<or> length n > NAME_MAX \<or> length (os_path_join u n) \<ge> PATH_MAX
            then None
            else (case resolve fs wd u of
                    None \<Rightarrow> None
                  | Some d \<Rightarrow> if fs_lookup fs d = Some Dir then Some (d @ [n]) else None))"
proof -
  from assms(1) have n1: "n \<noteq> []" and n3: "CHR ''/'' \<notin> set n"
    by (simp_all add: is_bare_def)
  from n1 have "hd n \<in> set n" by (rule hd_in_set)
  with n3 have n2: "hd n \<noteq> CHR ''/''" by metis
  note n = n1 n2 n3
  define c0 where "c0 = (if hd u = CHR ''/'' then [] else wd)"
  show ?thesis
  proof (cases "last u = CHR ''/''")
    case True
    with \<open>u \<noteq> []\<close> have u: "u = butlast u @ [CHR ''/'']"
      by (metis append_butlast_last_id)
    define u' where "u' = butlast u"
    have u2: "u = u' @ [CHR ''/'']" using u by (simp add: u'_def)
    have j: "os_path_join u n = u' @ CHR ''/'' # n"
      using n by (simp add: os_path_join_def u2)
    have lj: "length u \<le> length (u' @ CHR ''/'' # n)" by (simp add: u2)
    have s1: "split_on CHR ''/'' (u' @ CHR ''/'' # n) = split_on CHR ''/'' u' @ [n]"
      using n(3) by (rule split_on_append_sep)
    have s2: "split_on CHR ''/'' u = split_on CHR ''/'' u' @ [[]]"
      unfolding u2 using split_on_append_sep [of "CHR ''/''" "[]" u'] by simp
    have h: "hd (u' @ CHR ''/'' # n) = hd u"
      by (cases u') (simp_all add: u2)
    have ru: "resolve fs wd u =
        (if CHR 0x00 \<in> set u' \<or> length u \<ge> PATH_MAX then None
         else (case walk fs c0 (split_on CHR ''/'' u') of None \<Rightarrow> None
               | Some d \<Rightarrow> if fs_lookup fs d = Some Dir then Some d else None))"
      using \<open>u \<noteq> []\<close> unfolding resolve_def s2 walk_snoc_empty c0_def
      by (simp add: u2)
    have rj: "resolve fs wd (u' @ CHR ''/'' # n) =
        (if CHR 0x00 \<in> set u' \<or> CHR 0x00 \<in> set n \<or> length (u' @ CHR ''/'' # n) \<ge> PATH_MAX
         then None
         else (case walk fs c0 (split_on CHR ''/'' u') of None \<Rightarrow> None
               | Some d \<Rightarrow>
                   if fs_lookup fs d = Some Dir \<and> length n \<le> NAME_MAX then Some (d @ [n]) else None))"
      unfolding resolve_def s1 h walk_snoc_bare [OF assms(1)] c0_def
      by auto
    show ?thesis
    proof (cases "length (u' @ CHR ''/'' # n) \<ge> PATH_MAX")
      case True
      then show ?thesis unfolding j rj by simp
    next
      case False
      with lj have "\<not> length u \<ge> PATH_MAX" by simp
      with False show ?thesis
        unfolding j rj ru
        by (cases "walk fs c0 (split_on CHR ''/'' u')") auto
    qed
  next
    case False
    have j: "os_path_join u n = u @ CHR ''/'' # n"
      using n False \<open>u \<noteq> []\<close> by (simp add: os_path_join_def)
    have lj: "length u \<le> length (u @ CHR ''/'' # n)" by simp
    have s1: "split_on CHR ''/'' (u @ CHR ''/'' # n) = split_on CHR ''/'' u @ [n]"
      using n(3) by (rule split_on_append_sep)
    have h: "hd (u @ CHR ''/'' # n) = hd u"
      using \<open>u \<noteq> []\<close> by simp
    have ru: "resolve fs wd u =
        (if CHR 0x00 \<in> set u \<or> length u \<ge> PATH_MAX then None
         else walk fs c0 (split_on CHR ''/'' u))"
      using \<open>u \<noteq> []\<close> unfolding resolve_def c0_def by simp
    have rj: "resolve fs wd (u @ CHR ''/'' # n) =
        (if CHR 0x00 \<in> set u \<or> CHR 0x00 \<in> set n \<or> length (u @ CHR ''/'' # n) \<ge> PATH_MAX
         then None
         else (case walk fs c0 (split_on CHR ''/'' u) of None \<Rightarrow> None
               | Some d \<Rightarrow>
                   if fs_lookup fs d = Some Dir \<and> length n \<le> NAME_MAX then Some (d @ [n]) else None))"
      unfolding resolve_def s1 h walk_snoc_bare [OF assms(1)] c0_def
      by auto
    show ?thesis
    proof (cases "length (u @ CHR ''/'' # n) \<ge> PATH_MAX")
      case True
      then show ?thesis unfolding j rj by simp
    next
      case False
      with lj have "\<not> length u \<ge> PATH_MAX" by simp
      with False show ?thesis
        unfolding j rj ru
        by (cases "walk fs c0 (split_on CHR ''/'' u)") auto
    qed
  qed
qed

lemma disk_log_append [simp]: "disk (log_append l m s) = disk s"
  by (simp add: log_append_def)

lemma storage_nonempty: "is_storage fs e d \<Longrightarrow> UPLOAD_DIR e \<noteq> []"
  by (auto simp: is_storage_def resolve_def)

lemma target_bare:
  assumes "is_bare n" and "is_storage fs e d"
  shows "target fs e n = (if name_refused e n then None else Some (d @ [n]))"
  using assms storage_nonempty [OF assms(2)]
  by (simp add: target_def resolve_join_bare is_storage_def name_refused_def)

lemma map_of_filter_key:
  "map_of (filter (\<lambda>(k, _). k \<noteq> q) fs) r = (if r = q then None else map_of fs r)"
  by (induction fs) auto

lemma fs_lookup_remove:
  "q \<noteq> [] \<Longrightarrow>
     fs_lookup (filter (\<lambda>(k, _). k \<noteq> q) fs) r = (if r = q then None else fs_lookup fs r)"
  by (simp add: fs_lookup_def map_of_filter_key)

lemma file_path_nonempty: "fs_lookup fs q = Some (File c) \<Longrightarrow> q \<noteq> []"
  by (auto simp: fs_lookup_def)

text \<open>The three outcomes of the existence test followed by the removal.\<close>

lemma remove_file:
  assumes "target fs e n = Some q" and "fs_lookup fs q = Some (File c)"
  shows "os_path_exists fs (cwd e) (os_path_join (UPLOAD_DIR e) n)"
    and "os_remove fs (cwd e) (os_path_join (UPLOAD_DIR e) n) = Inr (filter (\<lambda>(k, _). k \<noteq> q) fs)"
  using assms by (simp_all add: target_def os_path_exists_def os_remove_def)

lemma remove_directory:
  assumes "target fs e n = Some q" and "fs_lookup fs q = Some Dir"
  shows "os_path_exists fs (cwd e) (os_path_join (UPLOAD_DIR e) n)"
    and "os_remove fs (cwd e) (os_path_join (UPLOAD_DIR e) n) = Inl IsADirectory"
  using assms by (simp_all add: target_def os_path_exists_def os_remove_def)

lemma exists_iff:
  "os_path_exists fs (cwd e) (os_path_join (UPLOAD_DIR e) n) \<longleftrightarrow>
     (\<exists>q. target fs e n = Some q \<and> fs_lookup fs q \<noteq> None)"
  by (auto simp: target_def os_path_exists_def split: option.splits)

lemma removed_same_dirs:
  "q \<noteq> [] \<Longrightarrow> fs_lookup fs q = Some (File c) \<Longrightarrow>
     (fs_lookup (filter (\<lambda>(k, _). k \<noteq> q) fs) p = Some Dir) = (fs_lookup fs p = Some Dir)"
  by (auto simp: fs_lookup_remove)

lemma target_after_remove:
  assumes "fs_lookup fs q = Some (File c)"
  shows "target (filter (\<lambda>(k, _). k \<noteq> q) fs) e n = target fs e n"
  unfolding target_def
  by (rule resolve_same_dirs) (rule removed_same_dirs [OF file_path_nonempty [OF assms] assms])

lemma delete_image_cases:
  "delete_image e n s =
     (case outcome_of (disk s) e n of
        Removed q \<Rightarrow> (Inr File_removed,
                       log_append INFO (File_deleted n) (s\<lparr>disk := filter (\<lambda>(k, _). k \<noteq> q) (disk s)\<rparr>))
      | Missing \<Rightarrow> (Inl (HTTPException 404 File_not_found), log_append ERROR (Not_found_on_delete n) s)
      | Raises \<Rightarrow> (Inl (OSError IsADirectory), s))"
  by (auto simp: delete_image_def outcome_of_def target_def os_path_exists_def os_remove_def Let_def
      split: option.splits node.splits)

lemma delete_loop_cases:
  "delete_loop e (n # rest) dels nf s =
     (case outcome_of (disk s) e n of
        Removed q \<Rightarrow> delete_loop e rest (dels @ [n]) nf
                       (log_append INFO (File_deleted n) (s\<lparr>disk := filter (\<lambda>(k, _). k \<noteq> q) (disk s)\<rparr>))
      | Missing \<Rightarrow> delete_loop e rest dels (nf @ [n]) (log_append ERROR (Not_found_on_delete n) s)
      | Raises \<Rightarrow> (Inl (OSError IsADirectory), s))"
  by (auto simp: outcome_of_def target_def os_path_exists_def os_remove_def Let_def
      split: option.splits node.splits)

declare delete_loop.simps(2) [simp del]

lemma outcome_Removed:
  "outcome_of fs e n = Removed q \<longleftrightarrow> (target fs e n = Some q \<and> (\<exists>c. fs_lookup fs q = Some (File c)))"
  by (auto simp: outcome_of_def split: option.splits node.splits)

lemma outcome_Raises:
  "outcome_of fs e n = Raises \<longleftrightarrow> targets_directory fs e n"
  by (auto simp: outcome_of_def targets_directory_def split: option.splits node.splits)

lemma outcome_Missing:
  "outcome_of fs e n = Missing \<longleftrightarrow> \<not> os_path_exists fs (cwd e) (os_path_join (UPLOAD_DIR e) n)"
  by (auto simp: outcome_of_def exists_iff split: option.splits node.splits)

lemma targets_directory_after_remove:
  assumes "fs_lookup fs q = Some (File c)"
  shows "targets_directory (filter (\<lambda>(k, _). k \<noteq> q) fs) e n = targets_directory fs e n"
  unfolding targets_directory_def target_after_remove [OF assms]
  using assms file_path_nonempty [OF assms]
  by (auto simp: fs_lookup_remove split: option.splits)

lemma outcome_after_remove:
  assumes "fs_lookup fs q = Some (File c)"
  shows "outcome_of (filter (\<lambda>(k, _). k \<noteq> q) fs) e n =
           (case outcome_of fs e n of
              Removed q' \<Rightarrow> if q' = q then Missing else Removed q'
            | Missing \<Rightarrow> Missing
            | Raises \<Rightarrow> Raises)"
  unfolding outcome_of_def target_after_remove [OF assms]
  using assms file_path_nonempty [OF assms]
  by (auto simp: fs_lookup_remove split: option.splits node.splits)

lemma delete_image_frame:
  assumes "target (disk s) e n \<noteq> Some r"
  shows "fs_lookup (disk (snd (delete_image e n s))) r = fs_lookup (disk s) r"
proof (cases "outcome_of (disk s) e n")
  case (Removed q)
  then obtain c where q: "target (disk s) e n = Some q" "fs_lookup (disk s) q = Some (File c)"
    by (auto simp: outcome_Removed)
  with assms have "r \<noteq> q" by auto
  with q Removed show ?thesis
    by (simp add: delete_image_cases fs_lookup_remove [OF file_path_nonempty [OF q(2)]])
next
  case Missing
  then show ?thesis by (simp add: delete_image_cases)
next
  case Raises
  then show ?thesis by (simp add: delete_image_cases)
qed

lemma delete_loop_frame:
  assumes "\<forall>n\<in>set ns. target (disk s) e n \<noteq> Some r"
  shows "fs_lookup (disk (snd (delete_loop e ns dels nf s))) r = fs_lookup (disk s) r"
  using assms
proof (induction ns arbitrary: dels nf s)
  case Nil
  show ?case by simp
next
  case (Cons n ns)
  show ?case
  proof (cases "outcome_of (disk s) e n")
    case (Removed q)
    then obtain c where q: "target (disk s) e n = Some q" "fs_lookup (disk s) q = Some (File c)"
      by (auto simp: outcome_Removed)
    define s' where "s' = log_append INFO (File_deleted n) (s\<lparr>disk := filter (\<lambda>(k, _). k \<noteq> q) (disk s)\<rparr>)"
    have d': "disk s' = filter (\<lambda>(k, _). k \<noteq> q) (disk s)" by (simp add: s'_def)
    from Cons.prems q have "r \<noteq> q" by auto
    then have keep: "fs_lookup (disk s') r = fs_lookup (disk s) r"
      by (simp add: d' fs_lookup_remove [OF file_path_nonempty [OF q(2)]])
    have "\<forall>m\<in>set ns. target (disk s') e m \<noteq> Some r"
      using Cons.prems by (simp add: d' target_after_remove [OF q(2)])
    then have "fs_lookup (disk (snd (delete_loop e ns (dels @ [n]) nf s'))) r = fs_lookup (disk s') r"
      by (rule Cons.IH)
    with keep Removed show ?thesis
      by (simp add: delete_loop_cases s'_def)
  next
    case Missing
    have "\<forall>m\<in>set ns. target (disk (log_append ERROR (Not_found_on_delete n) s)) e m \<noteq> Some r"
      using Cons.prems by simp
    then have "fs_lookup (disk (snd (delete_loop e ns dels (nf @ [n])
                 (log_append ERROR (Not_found_on_delete n) s)))) r
               = fs_lookup (disk (log_append ERROR (Not_found_on_delete n) s)) r"
      by (rule Cons.IH)
    with Missing show ?thesis
      by (simp add: delete_loop_cases)
  next
    case Raises
    then show ?thesis by (simp add: delete_loop_cases)
  qed
qed

lemma bare_target_in_storage:
  assumes "is_bare n" and "is_storage fs e d"
  shows "target fs e n = None \<or> target fs e n = Some (d @ [n])"
  by (simp add: target_bare [OF assms])

lemma pick_Cons:
  "pick b (n # ns) (x # bs) = (if x = b then n # pick b ns bs else pick b ns bs)"
  by (simp add: pick_def)

lemma delete_loop_partition:
  assumes "\<forall>n\<in>set ns. \<not> targets_directory (disk s) e n"
  shows "\<exists>bs. length bs = length ns \<and>
           fst (delete_loop e ns dels nf s) =
             Inr \<lparr>deleted = dels @ pick True ns bs, not_found = nf @ pick False ns bs\<rparr>"
  using assms
proof (induction ns arbitrary: dels nf s)
  case Nil
  show ?case by (simp add: pick_def)
next
  case (Cons n ns)
  from Cons.prems have nd: "outcome_of (disk s) e n \<noteq> Raises"
    by (simp add: outcome_Raises)
  show ?case
  proof (cases "outcome_of (disk s) e n")
    case (Removed q)
    then obtain c where q: "fs_lookup (disk s) q = Some (File c)"
      by (auto simp: outcome_Removed)
    define s' where "s' = log_append INFO (File_deleted n) (s\<lparr>disk := filter (\<lambda>(k, _). k \<noteq> q) (disk s)\<rparr>)"
    have "\<forall>m\<in>set ns. \<not> targets_directory (disk s') e m"
      using Cons.prems by (simp add: s'_def targets_directory_after_remove [OF q])
    from Cons.IH [OF this, of "dels @ [n]" nf]
    obtain bs where bs: "length bs = length ns"
      "fst (delete_loop e ns (dels @ [n]) nf s') =
         Inr \<lparr>deleted = (dels @ [n]) @ pick True ns bs, not_found = nf @ pick False ns bs\<rparr>"
      by blast
    have "length (True # bs) = length (n # ns)" using bs(1) by simp
    moreover have "fst (delete_loop e (n # ns) dels nf s) =
         Inr \<lparr>deleted = dels @ pick True (n # ns) (True # bs),
              not_found = nf @ pick False (n # ns) (True # bs)\<rparr>"
      using Removed bs(2) by (simp add: delete_loop_cases s'_def pick_Cons)
    ultimately show ?thesis by blast
  next
    case Missing
    define s' where "s' = log_append ERROR (Not_found_on_delete n) s"
    have "\<forall>m\<in>set ns. \<not> targets_directory (disk s') e m"
      using Cons.prems by (simp add: s'_def)
    from Cons.IH [OF this, of dels "nf @ [n]"]
    obtain bs where bs: "length bs = length ns"
      "fst (delete_loop e ns dels (nf @ [n]) s') =
         Inr \<lparr>deleted = dels @ pick True ns bs, not_found = (nf @ [n]) @ pick False ns bs\<rparr>"
      by blast
    have "length (False # bs) = length (n # ns)" using bs(1) by simp
    moreover have "fst (delete_loop e (n # ns) dels nf s) =
         Inr \<lparr>deleted = dels @ pick True (n # ns) (False # bs),
              not_found = nf @ pick False (n # ns) (False # bs)\<rparr>"
      using Missing bs(2) by (simp add: delete_loop_cases s'_def pick_Cons)
    ultimately show ?thesis by blast
  next
    case Raises
    with nd show ?thesis by simp
  qed
qed

lemma delete_A_B_A:
  assumes A: "target (disk s) e a = Some q" "fs_lookup (disk s) q = Some (File c)"
    and B: "\<not> os_path_exists (disk s) (cwd e) (os_path_join (UPLOAD_DIR e) b)"
  shows "fst (delete_selected e [a, b, a] s) = Inr \<lparr>deleted = [a], not_found = [b, a]\<rparr>"
proof -
  have oa: "outcome_of (disk s) e a = Removed q"
    using A by (simp add: outcome_Removed)
  have ob: "outcome_of (disk s) e b = Missing"
    using B by (simp add: outcome_Missing)
  define fs1 where "fs1 = filter (\<lambda>(k, _). k \<noteq> q) (disk s)"
  have ob1: "outcome_of fs1 e b = Missing"
    unfolding fs1_def by (simp add: outcome_after_remove [OF A(2)] ob)
  have oa1: "outcome_of fs1 e a = Missing"
    unfolding fs1_def by (simp add: outcome_after_remove [OF A(2)] oa)
  show ?thesis
    unfolding delete_selected_def
    by (simp add: delete_loop_cases oa ob1 oa1 fs1_def [symmetric])
qed

section \<open>The example installation\<close>

lemma ex_storage: "is_storage (disk ex_state) ex_env [''srv'', ''images'']"
  by (simp add: is_storage_def resolve_def ex_state_def ex_env_def ex_disk_def fs_lookup_def
      NAME_MAX_def PATH_MAX_def)

lemma ex_target_a: "target (disk ex_state) ex_env ''a.png'' = Some [''srv'', ''images'', ''a.png'']"
  by (simp add: target_def resolve_def os_path_join_def ex_state_def ex_env_def ex_disk_def
      fs_lookup_def NAME_MAX_def PATH_MAX_def)

lemma ex_target_zz: "target (disk ex_state) ex_env ''zz'' = Some [''srv'', ''images'', ''zz'']"
  by (simp add: target_def resolve_def os_path_join_def ex_state_def ex_env_def ex_disk_def
      fs_lookup_def NAME_MAX_def PATH_MAX_def)

lemma ex_target_dot: "target (disk ex_state) ex_env ''.'' = Some [''srv'', ''images'']"
  by (simp add: target_def resolve_def os_path_join_def ex_state_def ex_env_def ex_disk_def
      fs_lookup_def NAME_MAX_def PATH_MAX_def)

lemma ex_target_passwd:
  "target (disk ex_state) ex_env ''../../etc/passwd'' = Some [''etc'', ''passwd'']"
  by (simp add: target_def resolve_def os_path_join_def ex_state_def ex_env_def ex_disk_def
      fs_lookup_def NAME_MAX_def PATH_MAX_def)

lemma ex_lookup_a: "fs_lookup (disk ex_state) [''srv'', ''images'', ''a.png''] = Some (File [0x89, 0x50])"
  by (simp add: ex_state_def ex_disk_def fs_lookup_def)

lemma ex_lookup_b: "fs_lookup (disk ex_state) [''srv'', ''images'', ''b.png''] = Some (File [0x89, 0x51])"
  by (simp add: ex_state_def ex_disk_def fs_lookup_def)

lemma ex_lookup_zz: "fs_lookup (disk ex_state) [''srv'', ''images'', ''zz''] = None"
  by (simp add: ex_state_def ex_disk_def fs_lookup_def)

lemma ex_lookup_images: "fs_lookup (disk ex_state) [''srv'', ''images''] = Some Dir"
  by (simp add: ex_state_def ex_disk_def fs_lookup_def)

lemma ex_lookup_passwd:
  "fs_lookup (disk ex_state) [''etc'', ''passwd''] = Some (File [0x72, 0x6f, 0x6f, 0x74])"
  by (simp add: ex_state_def ex_disk_def fs_lookup_def)

lemma ex_outcome_a: "outcome_of (disk ex_state) ex_env ''a.png'' = Removed [''srv'', ''images'', ''a.png'']"
  by (simp add: outcome_of_def ex_target_a ex_lookup_a)

lemma ex_outcome_zz: "outcome_of (disk ex_state) ex_env ''zz'' = Missing"
  by (simp add: outcome_of_def ex_target_zz ex_lookup_zz)

lemma ex_outcome_dot: "outcome_of (disk ex_state) ex_env ''.'' = Raises"
  by (simp add: outcome_of_def ex_target_dot ex_lookup_images)

lemma ex_outcome_passwd: "outcome_of (disk ex_state) ex_env ''../../etc/passwd'' = Removed [''etc'', ''passwd'']"
  by (simp add: outcome_of_def ex_target_passwd ex_lookup_passwd)

lemma ex_not_exists_zz:
  "\<not> os_path_exists (disk ex_state) (cwd ex_env) (os_path_join (UPLOAD_DIR ex_env) ''zz'')"
  using ex_outcome_zz by (simp add: outcome_Missing)

lemma ex_not_dir_a: "\<not> targets_directory (disk ex_state) ex_env ''a.png''"
  using ex_outcome_a by (simp add: outcome_Raises [symmetric])

lemma ex_not_dir_zz: "\<not> targets_directory (disk ex_state) ex_env ''zz''"
  using ex_outcome_zz by (simp add: outcome_Raises [symmetric])


lemma ex_names_accepted:
  "\<not> name_refused ex_env ''0123456789ab4def8123456789abcdef.png''"
  "\<not> name_refused ex_env ''0123456789ab4def8123456789abcdef''"
  "\<not> name_refused ex_env ''a.png''"
  by (simp_all add: name_refused_def os_path_join_def ex_env_def NAME_MAX_def PATH_MAX_def)

section \<open>Deletion\<close>

text \<open>
  Claim C1, as stated, fails: no handler rejects or rewrites a name. In the example
  installation bulk delete joins the name \<^verbatim>\<open>../../etc/passwd\<close> to \<^verbatim>\<open>images\<close>; the
  path resolves to \<^verbatim>\<open>/etc/passwd\<close>, outside the storage directory \<^verbatim>\<open>/srv/images\<close>,
  the name is reported as deleted, and the file is gone afterwards.
\<close>

theorem traversal_deletes_outside_storage:
  "is_storage (disk ex_state) ex_env [''srv'', ''images''] \<and>
   outside [''srv'', ''images''] [''etc'', ''passwd''] \<and>
   CHR ''/'' \<in> set ''../../etc/passwd'' \<and>
   fs_lookup (disk ex_state) [''etc'', ''passwd''] = Some (File [0x72, 0x6f, 0x6f, 0x74]) \<and>
   fst (delete_selected ex_env [''../../etc/passwd''] ex_state) =
     Inr \<lparr>deleted = [''../../etc/passwd''], not_found = []\<rparr> \<and>
   fs_lookup (disk (snd (delete_selected ex_env [''../../etc/passwd''] ex_state))) [''etc'', ''passwd''] = None"
proof -
  have nonempty: "[''etc'', ''passwd''] \<noteq> ([] :: path)" by simp
  have "fs_lookup (filter (\<lambda>(k, _). k \<noteq> [''etc'', ''passwd'']) (disk ex_state)) [''etc'', ''passwd''] = None"
    by (simp add: fs_lookup_remove [OF nonempty])
  then show ?thesis
    by (simp add: ex_storage outside_def ex_lookup_passwd delete_selected_def delete_loop_cases
        ex_outcome_passwd)
qed

text \<open>
  Claim C1, amended: a name is joined to the storage directory as it is; when every
  supplied name is a bare filename, neither deletion handler changes any path outside
  the storage directory.
\<close>

theorem bare_names_stay_inside_storage:
  "is_storage (disk s) e d \<Longrightarrow> outside d r \<Longrightarrow>
     (is_bare n \<longrightarrow>
        fs_lookup (disk (snd (delete_image e n s))) r = fs_lookup (disk s) r)
     \<and> ((\<forall>x\<in>set ns. is_bare x) \<longrightarrow>
        fs_lookup (disk (snd (delete_selected e ns s))) r = fs_lookup (disk s) r)"
proof (intro conjI impI)
  assume st: "is_storage (disk s) e d" and out: "outside d r" and "is_bare n"
  then have "target (disk s) e n \<noteq> Some r"
    using bare_target_in_storage [of n "disk s" e d] by (auto simp: outside_def)
  then show "fs_lookup (disk (snd (delete_image e n s))) r = fs_lookup (disk s) r"
    by (rule delete_image_frame)
next
  assume st: "is_storage (disk s) e d" and out: "outside d r" and h: "\<forall>x\<in>set ns. is_bare x"
  have "\<forall>x\<in>set ns. target (disk s) e x \<noteq> Some r"
  proof
    fix x assume "x \<in> set ns"
    with h have "is_bare x" by auto
    then show "target (disk s) e x \<noteq> Some r"
      using bare_target_in_storage [of x "disk s" e d] st out by (auto simp: outside_def)
  qed
  then show "fs_lookup (disk (snd (delete_selected e ns s))) r = fs_lookup (disk s) r"
    unfolding delete_selected_def by (rule delete_loop_frame)
qed

text \<open>
  The amended claim C1 in the example installation: deleting the bare names
  \<^verbatim>\<open>passwd\<close> and \<^verbatim>\<open>a.png\<close> leaves \<^verbatim>\<open>/etc/passwd\<close> in place.
\<close>

theorem bare_names_stay_inside_storage_witness:
  "is_storage (disk ex_state) ex_env [''srv'', ''images''] \<and>
   outside [''srv'', ''images''] [''etc'', ''passwd''] \<and>
   is_bare ''a.png'' \<and> is_bare ''passwd'' \<and>
   fs_lookup (disk (snd (delete_image ex_env ''passwd'' ex_state))) [''etc'', ''passwd'']
     = Some (File [0x72, 0x6f, 0x6f, 0x74]) \<and>
   fs_lookup (disk (snd (delete_selected ex_env [''a.png'', ''passwd''] ex_state))) [''etc'', ''passwd'']
     = Some (File [0x72, 0x6f, 0x6f, 0x74])"
proof -
  have b: "is_bare ''a.png''" "is_bare ''passwd''"
    by (simp_all add: is_bare_def)
  have out: "outside [''srv'', ''images''] [''etc'', ''passwd'']"
    by (simp add: outside_def)
  show ?thesis
    using bare_names_stay_inside_storage
            [OF ex_storage out, of "''passwd''" "[''a.png'', ''passwd'']"]
          ex_storage out ex_lookup_passwd b
    by simp
qed

text \<open>
  Claim C2, as stated, fails: a name that stands for a directory, such as \<^verbatim>\<open>.\<close>,
  passes the existence test and \<^verbatim>\<open>os.remove\<close> raises on it, so the request ends there
  with no result lists and the names after it are not processed.
\<close>

theorem bulk_delete_aborts_on_directory:
  "fst (delete_selected ex_env [''.'', ''a.png''] ex_state) = Inl (OSError IsADirectory) \<and>
   fs_lookup (disk (snd (delete_selected ex_env [''.'', ''a.png''] ex_state)))
     [''srv'', ''images'', ''a.png''] = Some (File [0x89, 0x50])"
  by (simp add: delete_selected_def delete_loop_cases ex_outcome_dot ex_lookup_a)

text \<open>
  Claim C2, amended: for every list of names none of which stands for a directory, bulk
  delete returns the lists \<open>deleted\<close> and \<open>not_found\<close>, and every occurrence of an input
  name is in exactly one of them, in input order (the outcomes \<open>bs\<close>, one per
  occurrence, select the two lists). Repeated names are not deduplicated: for
  \<open>[a, b, a]\<close> where \<open>a\<close> is a file and \<open>b\<close> does not exist, the result is
  \<open>deleted = [a]\<close> and \<open>not_found = [b, a]\<close>.
\<close>

theorem delete_selected_accounts_for_every_name:
  "((\<forall>n\<in>set ns. \<not> targets_directory (disk s) e n) \<longrightarrow>
      (\<exists>bs. length bs = length ns \<and>
         fst (delete_selected e ns s) =
           Inr \<lparr>deleted = pick True ns bs, not_found = pick False ns bs\<rparr>))
   \<and> (target (disk s) e a = Some q \<and> fs_lookup (disk s) q = Some (File c) \<and>
       \<not> os_path_exists (disk s) (cwd e) (os_path_join (UPLOAD_DIR e) b) \<longrightarrow>
      fst (delete_selected e [a, b, a] s) = Inr \<lparr>deleted = [a], not_found = [b, a]\<rparr>)"
proof (intro conjI impI)
  assume "\<forall>n\<in>set ns. \<not> targets_directory (disk s) e n"
  from delete_loop_partition [OF this, of "[]" "[]"]
  show "\<exists>bs. length bs = length ns \<and>
         fst (delete_selected e ns s) =
           Inr \<lparr>deleted = pick True ns bs, not_found = pick False ns bs\<rparr>"
    by (simp add: delete_selected_def)
next
  assume "target (disk s) e a = Some q \<and> fs_lookup (disk s) q = Some (File c) \<and>
       \<not> os_path_exists (disk s) (cwd e) (os_path_join (UPLOAD_DIR e) b)"
  then show "fst (delete_selected e [a, b, a] s) = Inr \<lparr>deleted = [a], not_found = [b, a]\<rparr>"
    by (simp add: delete_A_B_A)
qed

text \<open>
  The amended claim C2 in the example installation, for the names
  \<^verbatim>\<open>a.png\<close>, \<^verbatim>\<open>zz\<close>, \<^verbatim>\<open>a.png\<close>.
\<close>

theorem delete_selected_accounts_for_every_name_witness:
  "\<not> targets_directory (disk ex_state) ex_env ''a.png'' \<and>
   \<not> targets_directory (disk ex_state) ex_env ''zz'' \<and>
   (\<exists>bs. length bs = length [''a.png'', ''zz'', ''a.png''] \<and>
      fst (delete_selected ex_env [''a.png'', ''zz'', ''a.png''] ex_state) =
        Inr \<lparr>deleted = pick True [''a.png'', ''zz'', ''a.png''] bs,
             not_found = pick False [''a.png'', ''zz'', ''a.png''] bs\<rparr>) \<and>
   target (disk ex_state) ex_env ''a.png'' = Some [''srv'', ''images'', ''a.png''] \<and>
   fs_lookup (disk ex_state) [''srv'', ''images'', ''a.png''] = Some (File [0x89, 0x50]) \<and>
   \<not> os_path_exists (disk ex_state) (cwd ex_env) (os_path_join (UPLOAD_DIR ex_env) ''zz'') \<and>
   fst (delete_selected ex_env [''a.png'', ''zz'', ''a.png''] ex_state) =
     Inr \<lparr>deleted = [''a.png''], not_found = [''zz'', ''a.png'']\<rparr>"
proof -
  note t = delete_selected_accounts_for_every_name
          [of "[''a.png'', ''zz'', ''a.png'']" ex_state ex_env "''a.png''"
             "[''srv'', ''images'', ''a.png'']" "[0x89, 0x50]" "''zz''"]
  have h: "\<forall>n\<in>set [''a.png'', ''zz'', ''a.png'']. \<not> targets_directory (disk ex_state) ex_env n"
    using ex_not_dir_a ex_not_dir_zz by simp
  from t h have e1: "\<exists>bs. length bs = length [''a.png'', ''zz'', ''a.png''] \<and>
      fst (delete_selected ex_env [''a.png'', ''zz'', ''a.png''] ex_state) =
        Inr \<lparr>deleted = pick True [''a.png'', ''zz'', ''a.png''] bs,
             not_found = pick False [''a.png'', ''zz'', ''a.png''] bs\<rparr>"
    by blast
  from t ex_target_a ex_lookup_a ex_not_exists_zz
  have e2: "fst (delete_selected ex_env [''a.png'', ''zz'', ''a.png''] ex_state) =
     Inr \<lparr>deleted = [''a.png''], not_found = [''zz'', ''a.png'']\<rparr>"
    by blast
  show ?thesis
    by (intro conjI ex_not_dir_a ex_not_dir_zz e1 ex_target_a ex_lookup_a ex_not_exists_zz e2)
qed

text \<open>
  Claim C7, as stated, fails: it speaks of every filename, but a name that stands for a
  directory gets neither answer. In the example installation no file named
  \<^verbatim>\<open>..\<close> exists in the storage directory; the joined path \<^verbatim>\<open>images/..\<close> is the
  directory \<^verbatim>\<open>/srv\<close>, which exists, so \<^verbatim>\<open>os.remove\<close> is called and raises: the
  handler returns neither the success detail nor the 404 error, and nothing is logged.
\<close>

theorem delete_image_raises_on_directory:
  "fs_lookup (disk ex_state) [''srv'', ''images'', ''..''] = None \<and>
   target (disk ex_state) ex_env ''..'' = Some [''srv''] \<and>
   delete_image ex_env ''..'' ex_state = (Inl (OSError IsADirectory), ex_state)"
proof -
  have tg: "target (disk ex_state) ex_env ''..'' = Some [''srv'']"
    by (simp add: target_def resolve_def os_path_join_def ex_state_def ex_env_def ex_disk_def
        fs_lookup_def NAME_MAX_def PATH_MAX_def)
  have "fs_lookup (disk ex_state) [''srv''] = Some Dir"
    by (simp add: ex_state_def ex_disk_def fs_lookup_def)
  with tg have "outcome_of (disk ex_state) ex_env ''..'' = Raises"
    by (simp add: outcome_of_def)
  moreover have "fs_lookup (disk ex_state) [''srv'', ''images'', ''..''] = None"
    by (simp add: ex_state_def ex_disk_def fs_lookup_def)
  ultimately show ?thesis
    using tg by (simp add: delete_image_cases)
qed

text \<open>
  Claim C7, amended: for every filename whose path (the name joined to the storage
  directory) is not an existing directory, single delete does one of two things. If the
  path exists, it is a regular file: the file is removed, every other path is unchanged,
  the deletion is logged and the success detail is returned. If the path does not
  exist, the 404 "file not found" error is raised and the file tree is unchanged; the
  only effect on the state is one error line in the log. For a bare filename that the
  operating system does not refuse, the path is the entry of exactly that name in the
  storage directory, so it exists exactly when the storage directory has such an entry.
\<close>

theorem delete_image_found_or_missing:
  "\<not> targets_directory (disk s) e n \<Longrightarrow>
     (os_path_exists (disk s) (cwd e) (os_path_join (UPLOAD_DIR e) n) \<longrightarrow>
        (\<exists>q c. target (disk s) e n = Some q \<and> fs_lookup (disk s) q = Some (File c) \<and>
           fs_lookup (disk (snd (delete_image e n s))) q = None \<and>
           (\<forall>r. r \<noteq> q \<longrightarrow>
              fs_lookup (disk (snd (delete_image e n s))) r = fs_lookup (disk s) r)) \<and>
        fst (delete_image e n s) = Inr File_removed \<and>
        logged (snd (delete_image e n s)) = logged s @ [(INFO, File_deleted n)])
     \<and> (\<not> os_path_exists (disk s) (cwd e) (os_path_join (UPLOAD_DIR e) n) \<longrightarrow>
        fst (delete_image e n s) = Inl (HTTPException 404 File_not_found) \<and>
        disk (snd (delete_image e n s)) = disk s \<and>
        logged (snd (delete_image e n s)) = logged s @ [(ERROR, Not_found_on_delete n)])
     \<and> (is_bare n \<and> \<not> name_refused e n \<and> is_storage (disk s) e d \<longrightarrow>
        target (disk s) e n = Some (d @ [n]) \<and>
        (os_path_exists (disk s) (cwd e) (os_path_join (UPLOAD_DIR e) n)
           \<longleftrightarrow> fs_lookup (disk s) (d @ [n]) \<noteq> None))"
proof (intro conjI impI)
  assume nd: "\<not> targets_directory (disk s) e n"
  assume ex: "os_path_exists (disk s) (cwd e) (os_path_join (UPLOAD_DIR e) n)"
  then obtain q where q: "target (disk s) e n = Some q" "fs_lookup (disk s) q \<noteq> None"
    by (auto simp: exists_iff)
  from nd q(1) have "fs_lookup (disk s) q \<noteq> Some Dir"
    by (simp add: targets_directory_def)
  with q(2) obtain c where c: "fs_lookup (disk s) q = Some (File c)"
    by (cases "fs_lookup (disk s) q") (auto intro: node.exhaust)
  from q(1) c have o: "outcome_of (disk s) e n = Removed q"
    by (simp add: outcome_Removed)
  from c have ne: "q \<noteq> []" by (rule file_path_nonempty)
  have gone: "fs_lookup (disk (snd (delete_image e n s))) q = None"
    by (simp add: delete_image_cases o fs_lookup_remove [OF ne])
  have rest: "\<forall>r. r \<noteq> q \<longrightarrow>
      fs_lookup (disk (snd (delete_image e n s))) r = fs_lookup (disk s) r"
    by (simp add: delete_image_cases o fs_lookup_remove [OF ne])
  from q(1) c gone rest
  show "\<exists>q c. target (disk s) e n = Some q \<and> fs_lookup (disk s) q = Some (File c) \<and>
           fs_lookup (disk (snd (delete_image e n s))) q = None \<and>
           (\<forall>r. r \<noteq> q \<longrightarrow>
              fs_lookup (disk (snd (delete_image e n s))) r = fs_lookup (disk s) r)"
    by blast
  show "fst (delete_image e n s) = Inr File_removed"
    by (simp add: delete_image_cases o)
  show "logged (snd (delete_image e n s)) = logged s @ [(INFO, File_deleted n)]"
    by (simp add: delete_image_cases o log_append_def)
next
  assume "\<not> os_path_exists (disk s) (cwd e) (os_path_join (UPLOAD_DIR e) n)"
  then have o: "outcome_of (disk s) e n = Missing"
    by (simp add: outcome_Missing)
  show "fst (delete_image e n s) = Inl (HTTPException 404 File_not_found)"
    by (simp add: delete_image_cases o)
  show "disk (snd (delete_image e n s)) = disk s"
    by (simp add: delete_image_cases o)
  show "logged (snd (delete_image e n s)) = logged s @ [(ERROR, Not_found_on_delete n)]"
    by (simp add: delete_image_cases o log_append_def)
next
  assume h: "is_bare n \<and> \<not> name_refused e n \<and> is_storage (disk s) e d"
  then show tg: "target (disk s) e n = Some (d @ [n])"
    using target_bare [of n "disk s" e d] by simp
  show "os_path_exists (disk s) (cwd e) (os_path_join (UPLOAD_DIR e) n)
           \<longleftrightarrow> fs_lookup (disk s) (d @ [n]) \<noteq> None"
    by (simp add: exists_iff tg)
qed

text \<open>
  The amended claim C7 in the example installation: \<^verbatim>\<open>a.png\<close> exists and is deleted,
  \<^verbatim>\<open>zz\<close> does not exist.
\<close>

theorem delete_image_found_or_missing_witness:
  "\<not> targets_directory (disk ex_state) ex_env ''a.png'' \<and>
   os_path_exists (disk ex_state) (cwd ex_env) (os_path_join (UPLOAD_DIR ex_env) ''a.png'') \<and>
   fst (delete_image ex_env ''a.png'' ex_state) = Inr File_removed \<and>
   logged (snd (delete_image ex_env ''a.png'' ex_state)) = [(INFO, File_deleted ''a.png'')] \<and>
   is_bare ''a.png'' \<and> \<not> name_refused ex_env ''a.png'' \<and>
   is_storage (disk ex_state) ex_env [''srv'', ''images''] \<and>
   target (disk ex_state) ex_env ''a.png'' = Some [''srv'', ''images'', ''a.png''] \<and>
   \<not> targets_directory (disk ex_state) ex_env ''zz'' \<and>
   \<not> os_path_exists (disk ex_state) (cwd ex_env) (os_path_join (UPLOAD_DIR ex_env) ''zz'') \<and>
   fst (delete_image ex_env ''zz'' ex_state) = Inl (HTTPException 404 File_not_found) \<and>
   disk (snd (delete_image ex_env ''zz'' ex_state)) = disk ex_state \<and>
   logged (snd (delete_image ex_env ''zz'' ex_state)) = [(ERROR, Not_found_on_delete ''zz'')]"
proof -
  note ta = delete_image_found_or_missing [OF ex_not_dir_a, of "[''srv'', ''images'']"]
  note tz = delete_image_found_or_missing [OF ex_not_dir_zz, of "[]"]
  have b: "is_bare ''a.png''" by (simp add: is_bare_def)
  have ea: "os_path_exists (disk ex_state) (cwd ex_env) (os_path_join (UPLOAD_DIR ex_env) ''a.png'')"
    using ex_target_a ex_lookup_a by (auto simp: exists_iff)
  have l0: "logged ex_state = []" by (simp add: ex_state_def)
  from ta ea have a1: "fst (delete_image ex_env ''a.png'' ex_state) = Inr File_removed"
    and a2: "logged (snd (delete_image ex_env ''a.png'' ex_state)) = logged ex_state @ [(INFO, File_deleted ''a.png'')]"
    by blast+
  from ta b ex_names_accepted(3) ex_storage
  have a3: "target (disk ex_state) ex_env ''a.png'' = Some ([''srv'', ''images''] @ [''a.png''])"
    by blast
  from tz ex_not_exists_zz
  have z1: "fst (delete_image ex_env ''zz'' ex_state) = Inl (HTTPException 404 File_not_found)"
    and z2: "disk (snd (delete_image ex_env ''zz'' ex_state)) = disk ex_state"
    and z3: "logged (snd (delete_image ex_env ''zz'' ex_state)) = logged ex_state @ [(ERROR, Not_found_on_delete ''zz'')]"
    by blast+
  from a2 z3 a3 have a2': "logged (snd (delete_image ex_env ''a.png'' ex_state)) = [(INFO, File_deleted ''a.png'')]"
    and z3': "logged (snd (delete_image ex_env ''zz'' ex_state)) = [(ERROR, Not_found_on_delete ''zz'')]"
    and a3': "target (disk ex_state) ex_env ''a.png'' = Some [''srv'', ''images'', ''a.png'']"
    by (simp_all add: l0)
  show ?thesis
    by (intro conjI ex_not_dir_a ea a1 a2' b ex_names_accepted(3) ex_storage a3' ex_not_dir_zz
        ex_not_exists_zz z1 z2 z3')
qed

text \<open>
  Claim C10: when the names supplied to a deletion handler are bare filenames, every
  entry of the storage directory whose name is not among them is the same after the
  call as before it, whether the call returns or raises.
\<close>

theorem deletion_keeps_other_files:
  "is_storage (disk s) e d \<Longrightarrow>
     (is_bare n \<and> m \<noteq> n \<longrightarrow>
        fs_lookup (disk (snd (delete_image e n s))) (d @ [m]) = fs_lookup (disk s) (d @ [m]))
     \<and> ((\<forall>x\<in>set ns. is_bare x) \<and> m \<notin> set ns \<longrightarrow>
        fs_lookup (disk (snd (delete_selected e ns s))) (d @ [m]) = fs_lookup (disk s) (d @ [m]))"
proof (intro conjI impI)
  assume st: "is_storage (disk s) e d" and "is_bare n \<and> m \<noteq> n"
  then have "target (disk s) e n \<noteq> Some (d @ [m])"
    using bare_target_in_storage [of n "disk s" e d] by auto
  then show "fs_lookup (disk (snd (delete_image e n s))) (d @ [m]) = fs_lookup (disk s) (d @ [m])"
    by (rule delete_image_frame)
next
  assume st: "is_storage (disk s) e d" and h: "(\<forall>x\<in>set ns. is_bare x) \<and> m \<notin> set ns"
  have "\<forall>x\<in>set ns. target (disk s) e x \<noteq> Some (d @ [m])"
  proof
    fix x assume x: "x \<in> set ns"
    with h have "is_bare x" "x \<noteq> m" by auto
    then show "target (disk s) e x \<noteq> Some (d @ [m])"
      using bare_target_in_storage [of x "disk s" e d] st by auto
  qed
  then show "fs_lookup (disk (snd (delete_selected e ns s))) (d @ [m]) = fs_lookup (disk s) (d @ [m])"
    unfolding delete_selected_def by (rule delete_loop_frame)
qed

text \<open>
  Claim C10 in the example installation: \<^verbatim>\<open>b.png\<close> keeps its bytes.
\<close>

theorem deletion_keeps_other_files_witness:
  "is_storage (disk ex_state) ex_env [''srv'', ''images''] \<and>
   is_bare ''a.png'' \<and> ''b.png'' \<noteq> ''a.png'' \<and>
   fs_lookup (disk (snd (delete_image ex_env ''a.png'' ex_state))) [''srv'', ''images'', ''b.png'']
     = Some (File [0x89, 0x51]) \<and>
   is_bare ''zz'' \<and> ''b.png'' \<notin> set [''a.png'', ''zz'', ''a.png''] \<and>
   fs_lookup (disk (snd (delete_selected ex_env [''a.png'', ''zz'', ''a.png''] ex_state)))
     [''srv'', ''images'', ''b.png''] = Some (File [0x89, 0x51])"
proof -
  have b: "is_bare ''a.png''" "is_bare ''zz''"
    by (simp_all add: is_bare_def)
  show ?thesis
    using deletion_keeps_other_files
            [OF ex_storage, of "''a.png''" "''b.png''" "[''a.png'', ''zz'', ''a.png'']"]
          ex_storage ex_lookup_b b
    by simp
qed

section \<open>Uploads\<close>

subsection \<open>The three outcomes of the checks\<close>

lemma upload_bad_type:
  "content_type f \<notin> {Some ''image/jpeg'', Some ''image/png'', Some ''image/gif''} \<Longrightarrow>
     upload_file e rnd f s =
       (Inl (HTTPException 400 Unsupported_type), log_append ERROR (Unsupported_format (filename f)) s)"
  by (simp add: upload_file_def)

lemma upload_too_large:
  "content_type f \<in> {Some ''image/jpeg'', Some ''image/png'', Some ''image/gif''} \<Longrightarrow>
   int (length (fileobj f)) > MAX_FILE_SIZE_MB e * 1024 * 1024 \<Longrightarrow>
     upload_file e rnd f s =
       (Inl (HTTPException 400 Too_large), log_append ERROR (Exceeds_size (filename f)) s)"
  by (simp add: upload_file_def)

lemma upload_passes:
  "content_type f \<in> {Some ''image/jpeg'', Some ''image/png'', Some ''image/gif''} \<Longrightarrow>
   int (length (fileobj f)) \<le> MAX_FILE_SIZE_MB e * 1024 * 1024 \<Longrightarrow>
     upload_file e rnd f s =
       (case open_wb_copy (disk s) (cwd e)
               (os_path_join (UPLOAD_DIR e) (hex (uuid4 rnd) @ snd (splitext (filename f)))) (fileobj f) of
          Inl err \<Rightarrow> (Inl (OSError err), s)
        | Inr fs' \<Rightarrow>
            (Inr (''/images/'' @ hex (uuid4 rnd) @ snd (splitext (filename f))),
             log_append INFO (Image_uploaded (hex (uuid4 rnd) @ snd (splitext (filename f)))) (s\<lparr>disk := fs'\<rparr>)))"
  by (simp add: upload_file_def Let_def)

lemma upload_passes_no_http_error:
  assumes "content_type f \<in> {Some ''image/jpeg'', Some ''image/png'', Some ''image/gif''}"
    and "int (length (fileobj f)) \<le> MAX_FILE_SIZE_MB e * 1024 * 1024"
  shows "fst (upload_file e rnd f s) \<noteq> Inl (HTTPException c d)"
  by (simp add: upload_passes [OF assms] split: sum.splits)

subsection \<open>The extension\<close>

lemma rfind_lower: "- 1 \<le> rfind c p"
  by (induction p) (auto simp: Let_def)

lemma rfind_upper: "rfind c p < int (length p)"
  by (induction p) (auto simp: Let_def)

lemma rfind_absent: "c \<notin> set p \<Longrightarrow> rfind c p = - 1"
  by (induction p) (auto simp: Let_def)

lemma rfind_last_occurrence: "c \<notin> set b \<Longrightarrow> rfind c (a @ c # b) = int (length a)"
  by (induction a) (auto simp: Let_def rfind_absent)

lemma rfind_append_absent: "c \<notin> set ys \<Longrightarrow> rfind c (xs @ ys) = rfind c xs"
  by (induction xs) (auto simp: Let_def rfind_absent)

lemma skip_dots_iff: "skip_dots p i d \<longleftrightarrow> (\<exists>j. i \<le> j \<and> j < d \<and> p ! j \<noteq> CHR ''.'')"
proof (induction p i d rule: skip_dots.induct)
  case (1 p i d)
  show ?case
  proof (cases "i < d")
    case False
    then show ?thesis by (simp add: skip_dots.simps [of p i d])
  next
    case lt: True
    show ?thesis
    proof (cases "p ! i \<noteq> CHR ''.''")
      case True
      with lt show ?thesis by (auto simp: skip_dots.simps [of p i d])
    next
      case False
      with lt have "skip_dots p i d = skip_dots p (Suc i) d"
        by (simp add: skip_dots.simps [of p i d])
      also have "\<dots> \<longleftrightarrow> (\<exists>j. Suc i \<le> j \<and> j < d \<and> p ! j \<noteq> CHR ''.'')"
        using "1.IH" lt False by simp
      also have "\<dots> \<longleftrightarrow> (\<exists>j. i \<le> j \<and> j < d \<and> p ! j \<noteq> CHR ''.'')"
        using False by (metis Suc_leD Suc_leI le_neq_implies_less)
      finally show ?thesis .
    qed
  qed
qed

lemma skip_dots_segment:
  "skip_dots (pre @ a @ rest) (length pre) (length pre + length a) \<longleftrightarrow> (\<exists>x\<in>set a. x \<noteq> CHR ''.'')"
proof -
  have "(\<exists>j. length pre \<le> j \<and> j < length pre + length a \<and> (pre @ a @ rest) ! j \<noteq> CHR ''.'')
        \<longleftrightarrow> (\<exists>k<length a. a ! k \<noteq> CHR ''.'')"
  proof
    assume "\<exists>j. length pre \<le> j \<and> j < length pre + length a \<and> (pre @ a @ rest) ! j \<noteq> CHR ''.''"
    then obtain j where j: "length pre \<le> j" "j < length pre + length a"
      "(pre @ a @ rest) ! j \<noteq> CHR ''.''" by blast
    from j(1) obtain k where k: "j = length pre + k"
      using le_iff_add by blast
    with j(2) have lt: "k < length a" by simp
    have "(pre @ a @ rest) ! (length pre + k) = (a @ rest) ! k"
      by (rule nth_append_length_plus)
    also have "\<dots> = a ! k" using lt by (simp add: nth_append)
    finally have "a ! k \<noteq> CHR ''.''" using j(3) k by simp
    with lt show "\<exists>k<length a. a ! k \<noteq> CHR ''.''" by blast
  next
    assume "\<exists>k<length a. a ! k \<noteq> CHR ''.''"
    then obtain k where k: "k < length a" "a ! k \<noteq> CHR ''.''" by blast
    have "(pre @ a @ rest) ! (length pre + k) = (a @ rest) ! k"
      by (rule nth_append_length_plus)
    also have "\<dots> = a ! k" using k(1) by (simp add: nth_append)
    finally have "(pre @ a @ rest) ! (length pre + k) \<noteq> CHR ''.''" using k(2) by simp
    moreover have "length pre \<le> length pre + k" "length pre + k < length pre + length a"
      using k(1) by simp_all
    ultimately show "\<exists>j. length pre \<le> j \<and> j < length pre + length a \<and> (pre @ a @ rest) ! j \<noteq> CHR ''.''"
      by blast
  qed
  also have "\<dots> \<longleftrightarrow> (\<exists>x\<in>set a. x \<noteq> CHR ''.'')"
  proof
    assume "\<exists>k<length a. a ! k \<noteq> CHR ''.''"
    then obtain k where "k < length a" "a ! k \<noteq> CHR ''.''" by blast
    then show "\<exists>x\<in>set a. x \<noteq> CHR ''.''" using nth_mem by blast
  next
    assume "\<exists>x\<in>set a. x \<noteq> CHR ''.''"
    then obtain x where "x \<in> set a" "x \<noteq> CHR ''.''" by blast
    then show "\<exists>k<length a. a ! k \<noteq> CHR ''.''"
      by (metis in_set_conv_nth)
  qed
  finally show ?thesis by (simp add: skip_dots_iff)
qed

lemma basename_split:
  "\<exists>pre. p = pre @ basename p \<and> rfind CHR ''/'' p + 1 = int (length pre)"
proof (cases "CHR ''/'' \<in> set p")
  case False
  then have "takeWhile (\<lambda>c. c \<noteq> CHR ''/'') (rev p) = rev p"
    by (auto simp: takeWhile_eq_all_conv)
  then have "basename p = p" by (simp only: basename_def rev_rev_ident)
  with False show ?thesis by (simp add: rfind_absent)
next
  case True
  then obtain a b where ab: "p = a @ CHR ''/'' # b" "CHR ''/'' \<notin> set b"
    by (meson split_list_last)
  have "takeWhile (\<lambda>c. c \<noteq> CHR ''/'') (rev b @ CHR ''/'' # rev a) = rev b"
    using ab(2) by (auto simp: takeWhile_tail takeWhile_eq_all_conv)
  then have "basename p = b" by (simp only: basename_def ab(1) rev_append rev.simps rev_rev_ident append.simps append_assoc)
  moreover have "rfind CHR ''/'' p = int (length a)"
    unfolding ab(1) using ab(2) by (rule rfind_last_occurrence)
  ultimately have "p = (a @ [CHR ''/'']) @ basename p \<and> rfind CHR ''/'' p + 1 = int (length (a @ [CHR ''/'']))"
    using ab(1) by simp
  then show ?thesis by blast
qed

lemma basename_no_sep: "CHR ''/'' \<notin> set (basename p)"
proof -
  have "CHR ''/'' \<notin> set (takeWhile (\<lambda>c. c \<noteq> CHR ''/'') (rev p))"
    by (auto dest: set_takeWhileD)
  then show ?thesis by (simp add: basename_def)
qed

lemma last_dot_suffix_decomp:
  "CHR ''.'' \<notin> set b \<Longrightarrow> last_dot_suffix (a @ CHR ''.'' # b) = CHR ''.'' # b"
proof -
  assume b: "CHR ''.'' \<notin> set b"
  have "takeWhile (\<lambda>c. c \<noteq> CHR ''.'') (rev b @ CHR ''.'' # rev a) = rev b"
    using b by (auto simp: takeWhile_tail takeWhile_eq_all_conv)
  then show ?thesis by (simp add: last_dot_suffix_def)
qed

lemma splitext_ext: "snd (splitext p) = (if has_extension p then last_dot_suffix p else [])"
proof -
  obtain pre where pre: "p = pre @ basename p" "rfind CHR ''/'' p + 1 = int (length pre)"
    using basename_split by blast
  show ?thesis
  proof (cases "CHR ''.'' \<in> set (basename p)")
    case False
    then have "rfind CHR ''.'' p = rfind CHR ''.'' pre"
      using rfind_append_absent [of "CHR ''.''" "basename p" pre] pre(1) by simp
    then have "rfind CHR ''.'' p < int (length pre)"
      by (simp add: rfind_upper)
    with pre(2) have "\<not> rfind CHR ''.'' p > rfind CHR ''/'' p" by simp
    then have l: "snd (splitext p) = []" by (simp add: splitext_def Let_def)
    from False have "\<not> has_extension p"
      by (auto simp: has_extension_def dest: set_dropWhileD)
    with l show ?thesis by simp
  next
    case True
    then obtain a b where ab: "basename p = a @ CHR ''.'' # b" "CHR ''.'' \<notin> set b"
      by (meson split_list_last)
    have p: "p = (pre @ a) @ CHR ''.'' # b" using pre(1) ab(1) by simp
    have dot: "rfind CHR ''.'' p = int (length pre + length a)"
      using rfind_last_occurrence [OF ab(2), of "pre @ a"] p by simp
    have gt: "rfind CHR ''.'' p > rfind CHR ''/'' p"
      using dot pre(2) by simp
    have p3: "p = pre @ a @ (CHR ''.'' # b)" using p by simp
    have skip: "skip_dots p (nat (rfind CHR ''/'' p + 1)) (nat (rfind CHR ''.'' p))
                 \<longleftrightarrow> (\<exists>x\<in>set a. x \<noteq> CHR ''.'')"
    proof -
      have "nat (rfind CHR ''/'' p + 1) = length pre" using pre(2) by simp
      moreover have "nat (rfind CHR ''.'' p) = length pre + length a" using dot by simp
      moreover have "skip_dots p (length pre) (length pre + length a) \<longleftrightarrow> (\<exists>x\<in>set a. x \<noteq> CHR ''.'')"
        using skip_dots_segment [of pre a "CHR ''.'' # b"] p3 by simp
      ultimately show ?thesis by simp
    qed
    have hx: "has_extension p \<longleftrightarrow> (\<exists>x\<in>set a. x \<noteq> CHR ''.'')"
    proof (cases "\<exists>x\<in>set a. x \<noteq> CHR ''.''")
      case True
      then have "dropWhile (\<lambda>c. c = CHR ''.'') (a @ CHR ''.'' # b)
                  = dropWhile (\<lambda>c. c = CHR ''.'') a @ CHR ''.'' # b"
        by (auto intro: dropWhile_append1)
      with True show ?thesis by (simp add: has_extension_def ab(1))
    next
      case False
      then have "dropWhile (\<lambda>c. c = CHR ''.'') (a @ CHR ''.'' # b)
                  = dropWhile (\<lambda>c. c = CHR ''.'') (CHR ''.'' # b)"
        by (intro dropWhile_append2) auto
      then have "set (dropWhile (\<lambda>c. c = CHR ''.'') (basename p)) \<subseteq> set b"
        by (auto simp: ab(1) dest: set_dropWhileD)
      with ab(2) False show ?thesis by (auto simp: has_extension_def)
    qed
    have dr: "drop (nat (rfind CHR ''.'' p)) p = CHR ''.'' # b"
      using dot p by simp
    have "snd (splitext p) = (if \<exists>x\<in>set a. x \<noteq> CHR ''.'' then CHR ''.'' # b else [])"
      using gt skip dr by (simp add: splitext_def Let_def)
    moreover have "last_dot_suffix p = CHR ''.'' # b"
      using last_dot_suffix_decomp [OF ab(2), of "pre @ a"] p by simp
    ultimately show ?thesis using hx by simp
  qed
qed

lemma splitext_ext_no_sep: "CHR ''/'' \<notin> set (snd (splitext p))"
proof (cases "has_extension p")
  case False
  then show ?thesis by (simp add: splitext_ext)
next
  case True
  then have d: "CHR ''.'' \<in> set (basename p)"
    by (auto simp: has_extension_def dest: set_dropWhileD)
  then obtain a b where ab: "basename p = a @ CHR ''.'' # b" "CHR ''.'' \<notin> set b"
    by (meson split_list_last)
  obtain pre where pre: "p = pre @ basename p" using basename_split by blast
  have "last_dot_suffix p = CHR ''.'' # b"
    using last_dot_suffix_decomp [OF ab(2), of "pre @ a"] pre ab(1) by simp
  moreover have "CHR ''/'' \<notin> set b"
    using basename_no_sep [of p] ab(1) by simp
  ultimately show ?thesis using True by (simp add: splitext_ext)
qed

subsection \<open>The token and the stored file\<close>

lemma hex_length: "length (hex w) = 32"
  by (simp add: hex_def)

lemma nibble_bound: "unat (x AND (0xF :: 128 word)) < 16"
proof -
  have "x AND 0xF \<le> (0xF :: 128 word)" by (rule word_and_le1)
  then have "unat (x AND 0xF) \<le> unat (0xF :: 128 word)" by (simp add: word_le_nat_alt)
  then show ?thesis by simp
qed

lemma hexdigit_in: "n < 16 \<Longrightarrow> hexdigit n \<in> hexdigits"
  unfolding hexdigit_def hexdigits_def by (rule nth_mem) simp

lemma hex_chars: "set (hex w) \<subseteq> hexdigits"
proof
  fix c assume "c \<in> set (hex w)"
  then have "c \<in> (\<lambda>i. hexdigit (unat (drop_bit (4 * (31 - i)) w AND 0xF))) ` set [0..<32]"
    by (simp only: hex_def set_map)
  then obtain i where "c = hexdigit (unat (drop_bit (4 * (31 - i)) w AND 0xF))"
    by (rule imageE)
  then show "c \<in> hexdigits"
    using hexdigit_in [OF nibble_bound] by simp
qed

lemma hexdigits_plain:
  "CHR ''/'' \<notin> hexdigits" "CHR 0x00 \<notin> hexdigits" "CHR ''.'' \<notin> hexdigits"
  by (simp_all add: hexdigits_def)

lemma splitext_ext_subset: "set (snd (splitext p)) \<subseteq> set p"
  by (auto simp: splitext_def Let_def dest: in_set_dropD)

lemma unique_name_bare: "is_bare (hex w @ snd (splitext p))"
proof -
  have len: "length (hex w @ snd (splitext p)) \<ge> 32" by (simp add: hex_length)
  have short: "hex w @ snd (splitext p) \<noteq> m" if "length m < 32" for m
  proof
    assume "hex w @ snd (splitext p) = m"
    then have "length (hex w @ snd (splitext p)) = length m" by (rule arg_cong)
    with len that show False by simp
  qed
  have "hex w @ snd (splitext p) \<noteq> []" "hex w @ snd (splitext p) \<noteq> ''.''"
    "hex w @ snd (splitext p) \<noteq> ''..''"
    by (rule short, simp)+
  moreover have "CHR ''/'' \<notin> set (hex w @ snd (splitext p))"
    using hex_chars [of w] hexdigits_plain(1) splitext_ext_no_sep [of p] by auto
  ultimately show ?thesis by (simp add: is_bare_def)
qed

lemma fs_lookup_write:
  "q \<noteq> [] \<Longrightarrow>
     fs_lookup ((q, File b) # filter (\<lambda>(k, _). k \<noteq> q) fs) r
       = (if r = q then Some (File b) else fs_lookup fs r)"
  by (simp add: fs_lookup_def map_of_filter_key)

lemma open_wb_copy_bare:
  assumes "is_bare n" and "is_storage fs e d"
  shows "open_wb_copy fs (cwd e) (os_path_join (UPLOAD_DIR e) n) bytes =
           (if name_refused e n then Inl NoSuchPath
            else if fs_lookup fs (d @ [n]) = Some Dir then Inl IsADirectory
            else Inr ((d @ [n], File bytes) # filter (\<lambda>(k, _). k \<noteq> d @ [n]) fs))"
proof -
  have r: "resolve fs (cwd e) (os_path_join (UPLOAD_DIR e) n)
             = (if name_refused e n then None else Some (d @ [n]))"
    using target_bare [OF assms] by (simp add: target_def)
  have "fs_lookup fs d = Some Dir" using assms(2) by (simp add: is_storage_def)
  then show ?thesis by (simp add: open_wb_copy_def r)
qed

lemma upload_stores:
  assumes st: "is_storage (disk s) e d"
    and ok: "content_type f \<in> {Some ''image/jpeg'', Some ''image/png'', Some ''image/gif''}"
    and le: "int (length (fileobj f)) \<le> MAX_FILE_SIZE_MB e * 1024 * 1024"
    and n: "n = hex (uuid4 rnd) @ snd (splitext (filename f))"
  shows "upload_file e rnd f s =
           (if name_refused e n then (Inl (OSError NoSuchPath), s)
            else if fs_lookup (disk s) (d @ [n]) = Some Dir then (Inl (OSError IsADirectory), s)
            else (Inr (''/images/'' @ n),
                  log_append INFO (Image_uploaded n)
                    (s\<lparr>disk := (d @ [n], File (fileobj f)) # filter (\<lambda>(k, _). k \<noteq> d @ [n]) (disk s)\<rparr>)))"
proof -
  have b: "is_bare n" unfolding n by (rule unique_name_bare)
  show ?thesis
    unfolding upload_passes [OF ok le] n [symmetric] open_wb_copy_bare [OF b st]
    by simp
qed

lemma upload_Inr_passed:
  assumes "fst (upload_file e rnd f s) = Inr u"
  shows "content_type f \<in> {Some ''image/jpeg'', Some ''image/png'', Some ''image/gif''}"
    and "int (length (fileobj f)) \<le> MAX_FILE_SIZE_MB e * 1024 * 1024"
proof -
  show ok: "content_type f \<in> {Some ''image/jpeg'', Some ''image/png'', Some ''image/gif''}"
  proof (rule ccontr)
    assume "content_type f \<notin> {Some ''image/jpeg'', Some ''image/png'', Some ''image/gif''}"
    from upload_bad_type [OF this] assms show False by simp
  qed
  show "int (length (fileobj f)) \<le> MAX_FILE_SIZE_MB e * 1024 * 1024"
  proof (rule ccontr)
    assume "\<not> int (length (fileobj f)) \<le> MAX_FILE_SIZE_MB e * 1024 * 1024"
    then have "int (length (fileobj f)) > MAX_FILE_SIZE_MB e * 1024 * 1024" by simp
    from upload_too_large [OF ok this] assms show False by simp
  qed
qed

subsection \<open>The example uploads\<close>

lemma ex_token: "hex (uuid4 0x0123456789abcdef0123456789abcdef) = ''0123456789ab4def8123456789abcdef''"
  by code_simp

lemma ex_ext_png: "splitext ''holiday.photo.png'' = (''holiday.photo'', ''.png'')"
  by code_simp

lemma ex_ext_dotfile: "splitext ''.png'' = (''.png'', [])"
  by code_simp

lemma ex_suffix_dotfile: "last_dot_suffix ''.png'' = ''.png''"
  by code_simp

lemma ex_has_ext: "has_extension ''holiday.photo.png''" "\<not> has_extension ''.png''"
  by code_simp+

lemma ex_upload_name:
  "hex (uuid4 ex_rnd) @ snd (splitext (filename ex_upload)) = ''0123456789ab4def8123456789abcdef.png''"
  by (simp add: ex_rnd_def ex_upload_def ex_token ex_ext_png)

lemma ex_dotfile_name:
  "hex (uuid4 ex_rnd) @ snd (splitext (filename ex_dotfile)) = ''0123456789ab4def8123456789abcdef''"
  by (simp add: ex_rnd_def ex_dotfile_def ex_token ex_ext_dotfile)

lemma ex_lookup_token_png:
  "fs_lookup (disk ex_state) [''srv'', ''images'', ''0123456789ab4def8123456789abcdef.png''] = None"
  by (simp add: ex_state_def ex_disk_def fs_lookup_def)

lemma ex_lookup_token:
  "fs_lookup (disk ex_state) [''srv'', ''images'', ''0123456789ab4def8123456789abcdef''] = None"
  by (simp add: ex_state_def ex_disk_def fs_lookup_def)

lemma ex_upload_passes:
  "content_type ex_upload \<in> {Some ''image/jpeg'', Some ''image/png'', Some ''image/gif''}"
  "int (length (fileobj ex_upload)) \<le> MAX_FILE_SIZE_MB ex_env * 1024 * 1024"
  "CHR 0x00 \<notin> set (filename ex_upload)"
  by (simp_all add: ex_upload_def ex_env_def)

lemma ex_dotfile_passes:
  "content_type ex_dotfile \<in> {Some ''image/jpeg'', Some ''image/png'', Some ''image/gif''}"
  "int (length (fileobj ex_dotfile)) \<le> MAX_FILE_SIZE_MB ex_env * 1024 * 1024"
  "CHR 0x00 \<notin> set (filename ex_dotfile)"
  by (simp_all add: ex_dotfile_def ex_env_def)

lemma ex_full_size_passes:
  "content_type ex_full_size \<in> {Some ''image/jpeg'', Some ''image/png'', Some ''image/gif''}"
  "int (length (fileobj ex_full_size)) = MAX_FILE_SIZE_MB ex_env * 1024 * 1024"
  "CHR 0x00 \<notin> set (filename ex_full_size)"
  by (simp_all add: ex_full_size_def ex_env_def)

lemma ex_oversize_facts:
  "content_type ex_oversize \<in> {Some ''image/jpeg'', Some ''image/png'', Some ''image/gif''}"
  "int (length (fileobj ex_oversize)) > MAX_FILE_SIZE_MB ex_env * 1024 * 1024"
  by (simp_all add: ex_oversize_def ex_env_def)

lemma ex_oversize_text_facts:
  "content_type ex_oversize_text \<notin> {Some ''image/jpeg'', Some ''image/png'', Some ''image/gif''}"
  "int (length (fileobj ex_oversize_text)) > MAX_FILE_SIZE_MB ex_env * 1024 * 1024"
  by (simp_all add: ex_oversize_text_def ex_env_def)

lemma ex_text_type:
  "content_type ex_text \<notin> {Some ''image/jpeg'', Some ''image/png'', Some ''image/gif''}"
  by (simp add: ex_text_def)

text \<open>
  A stored name longer than \<open>NAME_MAX\<close> cannot be created: the upload passes both checks
  and then fails in \<^verbatim>\<open>open\<close>, with nothing written.
\<close>

lemma ex_long_name_ext: "length (snd (splitext (filename ex_long_name))) = 301"
  unfolding ex_long_name_def by code_simp

lemma ex_long_name_fails:
  "upload_file ex_env ex_rnd ex_long_name ex_state = (Inl (OSError NoSuchPath), ex_state)"
proof -
  have ok: "content_type ex_long_name \<in> {Some ''image/jpeg'', Some ''image/png'', Some ''image/gif''}"
    and le: "int (length (fileobj ex_long_name)) \<le> MAX_FILE_SIZE_MB ex_env * 1024 * 1024"
    by (simp_all add: ex_long_name_def ex_env_def)
  have "length (hex (uuid4 ex_rnd) @ snd (splitext (filename ex_long_name))) > NAME_MAX"
    by (simp add: hex_length ex_long_name_ext NAME_MAX_def)
  then have "name_refused ex_env (hex (uuid4 ex_rnd) @ snd (splitext (filename ex_long_name)))"
    by (simp add: name_refused_def)
  with upload_stores [OF ex_storage ok le refl] show ?thesis by simp
qed

subsection \<open>Properties of the upload handler\<close>

text \<open>
  Claim C5: an upload whose declared media type is not one of image/jpeg, image/png,
  image/gif (a missing type included) is answered with HTTP 400 "unsupported file type"
  and the file tree is unchanged; an upload with one of the three types is never
  answered with that error.
\<close>

theorem upload_rejects_other_media_types:
  "(content_type f \<notin> {Some ''image/jpeg'', Some ''image/png'', Some ''image/gif''} \<longrightarrow>
      fst (upload_file e rnd f s) = Inl (HTTPException 400 Unsupported_type) \<and>
      disk (snd (upload_file e rnd f s)) = disk s) \<and>
   (content_type f \<in> {Some ''image/jpeg'', Some ''image/png'', Some ''image/gif''} \<longrightarrow>
      fst (upload_file e rnd f s) \<noteq> Inl (HTTPException 400 Unsupported_type))"
proof (intro conjI impI)
  assume bad: "content_type f \<notin> {Some ''image/jpeg'', Some ''image/png'', Some ''image/gif''}"
  show "fst (upload_file e rnd f s) = Inl (HTTPException 400 Unsupported_type)"
    by (simp add: upload_bad_type [OF bad])
  show "disk (snd (upload_file e rnd f s)) = disk s"
    by (simp add: upload_bad_type [OF bad])
next
  assume ok: "content_type f \<in> {Some ''image/jpeg'', Some ''image/png'', Some ''image/gif''}"
  show "fst (upload_file e rnd f s) \<noteq> Inl (HTTPException 400 Unsupported_type)"
  proof (cases "int (length (fileobj f)) > MAX_FILE_SIZE_MB e * 1024 * 1024")
    case True
    then show ?thesis by (simp add: upload_too_large [OF ok])
  next
    case False
    then have "int (length (fileobj f)) \<le> MAX_FILE_SIZE_MB e * 1024 * 1024" by simp
    then show ?thesis by (rule upload_passes_no_http_error [OF ok])
  qed
qed

text \<open>
  Claim C5 in the example installation: a text/plain upload is rejected, an image/png
  upload is not rejected for its type.
\<close>

theorem upload_rejects_other_media_types_witness:
  "content_type ex_text \<notin> {Some ''image/jpeg'', Some ''image/png'', Some ''image/gif''} \<and>
   fst (upload_file ex_env ex_rnd ex_text ex_state) = Inl (HTTPException 400 Unsupported_type) \<and>
   disk (snd (upload_file ex_env ex_rnd ex_text ex_state)) = disk ex_state \<and>
   content_type ex_upload \<in> {Some ''image/jpeg'', Some ''image/png'', Some ''image/gif''} \<and>
   fst (upload_file ex_env ex_rnd ex_upload ex_state) \<noteq> Inl (HTTPException 400 Unsupported_type)"
  using upload_rejects_other_media_types [of ex_text ex_env ex_rnd ex_state]
        upload_rejects_other_media_types [of ex_upload ex_env ex_rnd ex_state]
        ex_text_type ex_upload_passes(1)
  by blast

text \<open>
  Claim C6, as stated, fails in the kind of the error: the media type is checked first,
  so an upload over the limit whose declared type is text/plain is answered with
  "unsupported file type", not with "file exceeds the allowed size".
\<close>

theorem oversize_upload_of_other_type:
  "int (length (fileobj ex_oversize_text)) > MAX_FILE_SIZE_MB ex_env * 1024 * 1024 \<and>
   fst (upload_file ex_env ex_rnd ex_oversize_text ex_state) = Inl (HTTPException 400 Unsupported_type) \<and>
   fst (upload_file ex_env ex_rnd ex_oversize_text ex_state) \<noteq> Inl (HTTPException 400 Too_large)"
  using ex_oversize_text_facts(2) upload_bad_type [OF ex_oversize_text_facts(1), of ex_env ex_rnd ex_state]
  by simp

text \<open>
  Claim C6, amended: an upload whose byte length exceeds \<open>MAX_FILE_SIZE_MB * 1024 * 1024\<close>
  is answered with an HTTP 400 error and the file tree is unchanged; the error is
  "file exceeds the allowed size" when the declared media type is one of the three
  allowed types, and "unsupported file type" otherwise.
\<close>

theorem upload_rejects_oversize:
  "int (length (fileobj f)) > MAX_FILE_SIZE_MB e * 1024 * 1024 \<Longrightarrow>
     (\<exists>d. fst (upload_file e rnd f s) = Inl (HTTPException 400 d)) \<and>
     disk (snd (upload_file e rnd f s)) = disk s \<and>
     (content_type f \<in> {Some ''image/jpeg'', Some ''image/png'', Some ''image/gif''} \<longrightarrow>
        fst (upload_file e rnd f s) = Inl (HTTPException 400 Too_large)) \<and>
     (content_type f \<notin> {Some ''image/jpeg'', Some ''image/png'', Some ''image/gif''} \<longrightarrow>
        fst (upload_file e rnd f s) = Inl (HTTPException 400 Unsupported_type))"
proof (cases "content_type f \<in> {Some ''image/jpeg'', Some ''image/png'', Some ''image/gif''}")
  case True
  assume "int (length (fileobj f)) > MAX_FILE_SIZE_MB e * 1024 * 1024"
  from upload_too_large [OF True this] True show ?thesis by simp
next
  case False
  from upload_bad_type [OF False] False show ?thesis by simp
qed

text \<open>
  The amended claim C6 in the example installation, for an image/png upload and a
  text/plain upload of 5 MiB and one byte.
\<close>

theorem upload_rejects_oversize_witness:
  "int (length (fileobj ex_oversize)) > MAX_FILE_SIZE_MB ex_env * 1024 * 1024 \<and>
   content_type ex_oversize \<in> {Some ''image/jpeg'', Some ''image/png'', Some ''image/gif''} \<and>
   fst (upload_file ex_env ex_rnd ex_oversize ex_state) = Inl (HTTPException 400 Too_large) \<and>
   disk (snd (upload_file ex_env ex_rnd ex_oversize ex_state)) = disk ex_state \<and>
   int (length (fileobj ex_oversize_text)) > MAX_FILE_SIZE_MB ex_env * 1024 * 1024 \<and>
   content_type ex_oversize_text \<notin> {Some ''image/jpeg'', Some ''image/png'', Some ''image/gif''} \<and>
   fst (upload_file ex_env ex_rnd ex_oversize_text ex_state) = Inl (HTTPException 400 Unsupported_type) \<and>
   disk (snd (upload_file ex_env ex_rnd ex_oversize_text ex_state)) = disk ex_state"
  using upload_rejects_oversize [OF ex_oversize_facts(2), of ex_rnd ex_state]
        upload_rejects_oversize [OF ex_oversize_text_facts(2), of ex_rnd ex_state]
        ex_oversize_facts ex_oversize_text_facts
  by blast

text \<open>
  Claim C9: for an upload with an allowed media type, the "file exceeds the allowed
  size" error is raised exactly when the byte length is strictly greater than
  \<open>MAX_FILE_SIZE_MB * 1024 * 1024\<close>; an upload of exactly that length passes the checks:
  the handler raises no HTTP error for it.
\<close>

theorem upload_size_limit_is_inclusive:
  "content_type f \<in> {Some ''image/jpeg'', Some ''image/png'', Some ''image/gif''} \<Longrightarrow>
     (fst (upload_file e rnd f s) = Inl (HTTPException 400 Too_large)
        \<longleftrightarrow> int (length (fileobj f)) > MAX_FILE_SIZE_MB e * 1024 * 1024) \<and>
     (int (length (fileobj f)) = MAX_FILE_SIZE_MB e * 1024 * 1024 \<longrightarrow>
        (\<forall>c d. fst (upload_file e rnd f s) \<noteq> Inl (HTTPException c d)))"
proof -
  assume ok: "content_type f \<in> {Some ''image/jpeg'', Some ''image/png'', Some ''image/gif''}"
  have a: "fst (upload_file e rnd f s) = Inl (HTTPException 400 Too_large)
        \<longleftrightarrow> int (length (fileobj f)) > MAX_FILE_SIZE_MB e * 1024 * 1024"
  proof (cases "int (length (fileobj f)) > MAX_FILE_SIZE_MB e * 1024 * 1024")
    case True
    from upload_too_large [OF ok True] True show ?thesis by simp
  next
    case False
    then have le: "int (length (fileobj f)) \<le> MAX_FILE_SIZE_MB e * 1024 * 1024" by simp
    from upload_passes_no_http_error [OF ok le] False show ?thesis by blast
  qed
  have b: "\<forall>c d. fst (upload_file e rnd f s) \<noteq> Inl (HTTPException c d)"
    if "int (length (fileobj f)) = MAX_FILE_SIZE_MB e * 1024 * 1024"
  proof -
    from that have le: "int (length (fileobj f)) \<le> MAX_FILE_SIZE_MB e * 1024 * 1024" by simp
    from upload_passes_no_http_error [OF ok le] show ?thesis by blast
  qed
  from a b show ?thesis by blast
qed

text \<open>
  Claim C9 in the example installation: an image/png upload of exactly 5 MiB raises no
  HTTP error, one of 5 MiB and one byte is rejected for its size.
\<close>

theorem upload_size_limit_is_inclusive_witness:
  "content_type ex_full_size \<in> {Some ''image/jpeg'', Some ''image/png'', Some ''image/gif''} \<and>
   int (length (fileobj ex_full_size)) = MAX_FILE_SIZE_MB ex_env * 1024 * 1024 \<and>
   fst (upload_file ex_env ex_rnd ex_full_size ex_state) \<noteq> Inl (HTTPException 400 Too_large) \<and>
   fst (upload_file ex_env ex_rnd ex_full_size ex_state) \<noteq> Inl (HTTPException 400 Unsupported_type) \<and>
   content_type ex_oversize \<in> {Some ''image/jpeg'', Some ''image/png'', Some ''image/gif''} \<and>
   int (length (fileobj ex_oversize)) > MAX_FILE_SIZE_MB ex_env * 1024 * 1024 \<and>
   fst (upload_file ex_env ex_rnd ex_oversize ex_state) = Inl (HTTPException 400 Too_large)"
proof -
  note t = upload_size_limit_is_inclusive [OF ex_full_size_passes(1), of ex_env ex_rnd ex_state]
  note t2 = upload_size_limit_is_inclusive [OF ex_oversize_facts(1), of ex_env ex_rnd ex_state]
  from t ex_full_size_passes(2)
  have n: "fst (upload_file ex_env ex_rnd ex_full_size ex_state) \<noteq> Inl (HTTPException 400 Too_large)"
    and m: "fst (upload_file ex_env ex_rnd ex_full_size ex_state) \<noteq> Inl (HTTPException 400 Unsupported_type)"
    by blast+
  from t2 ex_oversize_facts(2)
  have o: "fst (upload_file ex_env ex_rnd ex_oversize ex_state) = Inl (HTTPException 400 Too_large)"
    by blast
  show ?thesis
    by (intro conjI ex_full_size_passes(1,2) n m ex_oversize_facts o)
qed

text \<open>
  Claim C4, as stated, fails on the extension: for the original name \<^verbatim>\<open>.png\<close> the
  last dot-delimited suffix is \<^verbatim>\<open>.png\<close>, but \<^verbatim>\<open>os.path.splitext\<close> treats the
  leading dot as part of the name and returns no extension, so the file is stored under
  the bare token and no file named token plus \<^verbatim>\<open>.png\<close> exists.
\<close>

theorem dotfile_upload_loses_suffix:
  "last_dot_suffix (filename ex_dotfile) = ''.png'' \<and>
   fst (upload_file ex_env ex_rnd ex_dotfile ex_state) = Inr ''/images/0123456789ab4def8123456789abcdef'' \<and>
   fs_lookup (disk (snd (upload_file ex_env ex_rnd ex_dotfile ex_state)))
     [''srv'', ''images'', ''0123456789ab4def8123456789abcdef''] = Some (File (fileobj ex_dotfile)) \<and>
   fs_lookup (disk (snd (upload_file ex_env ex_rnd ex_dotfile ex_state)))
     [''srv'', ''images'', ''0123456789ab4def8123456789abcdef.png''] = None"
proof -
  have ne: "[''srv'', ''images'', ''0123456789ab4def8123456789abcdef''] \<noteq> ([] :: path)" by simp
  have eq: "upload_file ex_env ex_rnd ex_dotfile ex_state =
      (Inr (''/images/'' @ ''0123456789ab4def8123456789abcdef''),
       log_append INFO (Image_uploaded ''0123456789ab4def8123456789abcdef'')
         (ex_state\<lparr>disk := ([''srv'', ''images''] @ [''0123456789ab4def8123456789abcdef''], File (fileobj ex_dotfile))
            # filter (\<lambda>(k, _). k \<noteq> [''srv'', ''images''] @ [''0123456789ab4def8123456789abcdef'']) (disk ex_state)\<rparr>))"
    using upload_stores [OF ex_storage ex_dotfile_passes(1,2) ex_dotfile_name [symmetric]]
      ex_lookup_token ex_names_accepted(2)
    by simp
  have s: "last_dot_suffix (filename ex_dotfile) = ''.png''"
    by (simp add: ex_dotfile_def ex_suffix_dotfile)
  show ?thesis
    unfolding eq using s ex_lookup_token_png by (simp add: fs_lookup_write [OF ne])
qed

text \<open>
  Claim C4, amended: for every accepted upload, that is every call of the handler that
  returns a URL, the stored name is the 32-character lower-case hexadecimal token of the
  random draw followed by the extension that \<^verbatim>\<open>os.path.splitext\<close> gives: the last
  dot-delimited suffix of the original name when the last path component of the name,
  after its leading dots, still contains a dot, and the empty string otherwise. The
  upload has passed both checks, the file of that name in the storage directory holds
  all the uploaded bytes, every other path is unchanged, and the returned URL is
  \<^verbatim>\<open>/images/\<close> followed by the stored name.
\<close>

theorem accepted_upload_is_stored:
  "is_storage (disk s) e d \<Longrightarrow> fst (upload_file e rnd f s) = Inr u \<Longrightarrow>
     u = ''/images/'' @ hex (uuid4 rnd) @ snd (splitext (filename f)) \<and>
     length (hex (uuid4 rnd)) = 32 \<and>
     set (hex (uuid4 rnd)) \<subseteq> hexdigits \<and>
     snd (splitext (filename f)) =
       (if has_extension (filename f) then last_dot_suffix (filename f) else []) \<and>
     content_type f \<in> {Some ''image/jpeg'', Some ''image/png'', Some ''image/gif''} \<and>
     int (length (fileobj f)) \<le> MAX_FILE_SIZE_MB e * 1024 * 1024 \<and>
     fs_lookup (disk (snd (upload_file e rnd f s)))
       (d @ [hex (uuid4 rnd) @ snd (splitext (filename f))]) = Some (File (fileobj f)) \<and>
     (\<forall>r. r \<noteq> d @ [hex (uuid4 rnd) @ snd (splitext (filename f))] \<longrightarrow>
        fs_lookup (disk (snd (upload_file e rnd f s))) r = fs_lookup (disk s) r)"
proof -
  define n where "n = hex (uuid4 rnd) @ snd (splitext (filename f))"
  assume st: "is_storage (disk s) e d"
  assume r: "fst (upload_file e rnd f s) = Inr u"
  note p = upload_Inr_passed [OF r]
  note eq = upload_stores [OF st p n_def]
  from r eq have acc: "\<not> name_refused e n"
    by (auto split: if_splits)
  from r eq acc have nd: "fs_lookup (disk s) (d @ [n]) \<noteq> Some Dir"
    by (auto split: if_splits)
  from eq acc nd have res: "upload_file e rnd f s =
      (Inr (''/images/'' @ n),
       log_append INFO (Image_uploaded n)
         (s\<lparr>disk := (d @ [n], File (fileobj f)) # filter (\<lambda>(k, _). k \<noteq> d @ [n]) (disk s)\<rparr>))"
    by simp
  have ne: "d @ [n] \<noteq> []" by simp
  from r res have c1: "u = ''/images/'' @ hex (uuid4 rnd) @ snd (splitext (filename f))"
    by (simp add: n_def)
  have c2: "length (hex (uuid4 rnd)) = 32" by (rule hex_length)
  have c3: "set (hex (uuid4 rnd)) \<subseteq> hexdigits" by (rule hex_chars)
  have c4: "snd (splitext (filename f)) =
          (if has_extension (filename f) then last_dot_suffix (filename f) else [])"
    by (rule splitext_ext)
  have c5: "fs_lookup (disk (snd (upload_file e rnd f s)))
          (d @ [hex (uuid4 rnd) @ snd (splitext (filename f))]) = Some (File (fileobj f))"
    unfolding n_def [symmetric] res by (simp add: fs_lookup_write [OF ne])
  have c6: "\<forall>r. r \<noteq> d @ [hex (uuid4 rnd) @ snd (splitext (filename f))] \<longrightarrow>
           fs_lookup (disk (snd (upload_file e rnd f s))) r = fs_lookup (disk s) r"
    unfolding n_def [symmetric] res by (simp add: fs_lookup_write [OF ne])
  show ?thesis
    by (intro conjI c1 c2 c3 c4 p c5 c6)
qed

text \<open>
  The amended claim C4 in the example installation: the upload
  \<^verbatim>\<open>holiday.photo.png\<close> is accepted and stored under the token and \<^verbatim>\<open>.png\<close>.
\<close>

theorem accepted_upload_is_stored_witness:
  "is_storage (disk ex_state) ex_env [''srv'', ''images''] \<and>
   fst (upload_file ex_env ex_rnd ex_upload ex_state) = Inr ''/images/0123456789ab4def8123456789abcdef.png'' \<and>
   has_extension (filename ex_upload) \<and>
   last_dot_suffix (filename ex_upload) = ''.png'' \<and>
   fs_lookup (disk ex_state) [''srv'', ''images'', ''0123456789ab4def8123456789abcdef.png''] = None \<and>
   fs_lookup (disk (snd (upload_file ex_env ex_rnd ex_upload ex_state)))
     [''srv'', ''images'', ''0123456789ab4def8123456789abcdef.png''] = Some (File (fileobj ex_upload)) \<and>
   fs_lookup (disk (snd (upload_file ex_env ex_rnd ex_upload ex_state))) [''srv'', ''images'', ''a.png'']
     = fs_lookup (disk ex_state) [''srv'', ''images'', ''a.png'']"
proof -
  have "upload_file ex_env ex_rnd ex_upload ex_state =
      (Inr (''/images/'' @ ''0123456789ab4def8123456789abcdef.png''),
       log_append INFO (Image_uploaded ''0123456789ab4def8123456789abcdef.png'')
         (ex_state\<lparr>disk := ([''srv'', ''images''] @ [''0123456789ab4def8123456789abcdef.png''], File (fileobj ex_upload))
            # filter (\<lambda>(k, _). k \<noteq> [''srv'', ''images''] @ [''0123456789ab4def8123456789abcdef.png'']) (disk ex_state)\<rparr>))"
    using upload_stores [OF ex_storage ex_upload_passes(1,2) ex_upload_name [symmetric]]
      ex_lookup_token_png ex_names_accepted(1)
    by simp
  then have r: "fst (upload_file ex_env ex_rnd ex_upload ex_state)
             = Inr ''/images/0123456789ab4def8123456789abcdef.png''"
    by simp
  note t = accepted_upload_is_stored [OF ex_storage r]
  from t have st: "fs_lookup (disk (snd (upload_file ex_env ex_rnd ex_upload ex_state)))
          ([''srv'', ''images''] @ [hex (uuid4 ex_rnd) @ snd (splitext (filename ex_upload))])
            = Some (File (fileobj ex_upload))"
    and fr: "\<forall>r. r \<noteq> [''srv'', ''images''] @ [hex (uuid4 ex_rnd) @ snd (splitext (filename ex_upload))] \<longrightarrow>
           fs_lookup (disk (snd (upload_file ex_env ex_rnd ex_upload ex_state))) r = fs_lookup (disk ex_state) r"
    and sx: "snd (splitext (filename ex_upload)) =
       (if has_extension (filename ex_upload) then last_dot_suffix (filename ex_upload) else [])"
    by blast+
  from st have st': "fs_lookup (disk (snd (upload_file ex_env ex_rnd ex_upload ex_state)))
     [''srv'', ''images'', ''0123456789ab4def8123456789abcdef.png''] = Some (File (fileobj ex_upload))"
    by (simp add: ex_upload_name)
  from fr have fr': "fs_lookup (disk (snd (upload_file ex_env ex_rnd ex_upload ex_state))) [''srv'', ''images'', ''a.png'']
     = fs_lookup (disk ex_state) [''srv'', ''images'', ''a.png'']"
    by (simp add: ex_upload_name)
  have hx: "has_extension (filename ex_upload)"
    by (simp add: ex_upload_def ex_has_ext)
  have "snd (splitext (filename ex_upload)) = ''.png''"
    by (simp add: ex_upload_def ex_ext_png)
  with hx sx have ls: "last_dot_suffix (filename ex_upload) = ''.png''"
    by simp
  show ?thesis
    by (intro conjI ex_storage r hx ls ex_lookup_token_png st' fr')
qed

section \<open>Listing\<close>

lemma images_page_storage:
  assumes "is_storage (disk s) e d"
  shows "images_page e pg s =
           Inr \<lparr>images = map image_of
                   (py_slice (sort (dir_entries (disk s) d)) ((pg - 1) * 50) ((pg - 1) * 50 + 50)),
                page = pg,
                has_next = ((pg - 1) * 50 + 50 < int (length (dir_entries (disk s) d)))\<rparr>"
  using assms
  by (simp add: images_page_def os_listdir_def is_storage_def Let_def image_of_def [abs_def])

lemma py_slice_from_start:
  assumes "0 \<le> start" and "start \<le> stop"
  shows "py_slice xs start stop = take (nat (stop - start)) (drop (nat start) xs)"
proof (cases "start \<ge> int (length xs)")
  case True
  with assms show ?thesis by (simp add: py_slice_def Let_def)
next
  case False
  show ?thesis
  proof (cases "stop \<le> int (length xs)")
    case True
    with False assms show ?thesis by (simp add: py_slice_def Let_def min_def)
  next
    case False
    with \<open>\<not> start \<ge> int (length xs)\<close> assms
    have "py_slice xs start stop = take (nat (int (length xs) - start)) (drop (nat start) xs)"
      by (simp add: py_slice_def Let_def min_def)
    also have "\<dots> = drop (nat start) xs"
      using assms by (intro take_all) (simp add: nat_diff_distrib)
    also have "\<dots> = take (nat (stop - start)) (drop (nat start) xs)"
      using assms False by (intro take_all [symmetric]) simp
    finally show ?thesis .
  qed
qed

lemma py_slice_beyond: "int (length xs) \<le> start \<Longrightarrow> start \<le> stop \<Longrightarrow> py_slice xs start stop = []"
  by (simp add: py_slice_def Let_def)

lemma py_slice_to_zero: "py_slice xs start 0 = []"
  by (simp add: py_slice_def Let_def)

lemma images_page_positive:
  assumes st: "is_storage (disk s) e d" and pg: "1 \<le> pg"
  shows "\<exists>v. images_page e pg s = Inr v \<and>
           images v = map image_of (take 50 (drop (nat ((pg - 1) * 50)) (sort (dir_entries (disk s) d)))) \<and>
           sorted (sort (dir_entries (disk s) d)) \<and>
           distinct (sort (dir_entries (disk s) d)) \<and>
           set (sort (dir_entries (disk s) d)) = set (dir_entries (disk s) d)"
proof -
  have "py_slice (sort (dir_entries (disk s) d)) ((pg - 1) * 50) ((pg - 1) * 50 + 50)
          = take 50 (drop (nat ((pg - 1) * 50)) (sort (dir_entries (disk s) d)))"
    using pg by (simp add: py_slice_from_start)
  moreover have "distinct (dir_entries (disk s) d)"
    by (simp add: dir_entries_def)
  ultimately show ?thesis
    unfolding images_page_storage [OF st] by simp
qed

lemma images_page_zero:
  assumes st: "is_storage (disk s) e d"
  shows "\<exists>v. images_page e 0 s = Inr v \<and> images v = []"
  unfolding images_page_storage [OF st] by (simp add: py_slice_to_zero)

lemma ex_gallery_storage: "is_storage (disk ex_gallery) ex_env [''srv'', ''images'']"
  by (simp add: is_storage_def resolve_def ex_gallery_def ex_env_def fs_lookup_def
      NAME_MAX_def PATH_MAX_def)

lemma ex_gallery_entries: "dir_entries (disk ex_gallery) [''srv'', ''images''] = map ex_image_name (rev [0..<51])"
  by code_simp

lemma ex_gallery_sorted: "sort (map ex_image_name (rev [0..<51])) = map ex_image_name [0..<51]"
  by code_simp

lemma ex_gallery_slice: "py_slice (map ex_image_name [0..<51]) (- 100) (- 50) = [''img00.png'']"
  by code_simp

lemma ex_gallery_count: "int (length (dir_entries (disk ex_gallery) [''srv'', ''images''])) = 51"
  by (simp add: ex_gallery_entries)

text \<open>
  Claim C8: with \<open>N\<close> entries in the storage directory, the listing of page \<open>pg\<close>
  reports \<open>has_next\<close> exactly when \<open>(pg - 1) * 50 + 50 < N\<close>; a page that starts at or
  beyond \<open>N\<close> has no images and no next page.
\<close>

theorem images_page_has_next:
  "is_storage (disk s) e d \<Longrightarrow>
     (\<exists>v. images_page e pg s = Inr v \<and> page v = pg \<and>
        (has_next v \<longleftrightarrow> (pg - 1) * 50 + 50 < int (length (dir_entries (disk s) d))) \<and>
        (int (length (dir_entries (disk s) d)) \<le> (pg - 1) * 50 \<longrightarrow>
           images v = [] \<and> \<not> has_next v))"
proof -
  assume st: "is_storage (disk s) e d"
  have "int (length (dir_entries (disk s) d)) \<le> (pg - 1) * 50 \<Longrightarrow>
          py_slice (sort (dir_entries (disk s) d)) ((pg - 1) * 50) ((pg - 1) * 50 + 50) = []"
    by (intro py_slice_beyond) simp_all
  then show ?thesis
    unfolding images_page_storage [OF st] by simp
qed

text \<open>
  Claim C8 in a storage directory of 51 files: page 1 has a next page, page 3 is empty
  and has none.
\<close>

theorem images_page_has_next_witness:
  "is_storage (disk ex_gallery) ex_env [''srv'', ''images''] \<and>
   int (length (dir_entries (disk ex_gallery) [''srv'', ''images''])) = 51 \<and>
   (\<exists>v. images_page ex_env 1 ex_gallery = Inr v \<and> has_next v) \<and>
   (\<exists>v. images_page ex_env 3 ex_gallery = Inr v \<and> images v = [] \<and> \<not> has_next v)"
proof -
  from images_page_has_next [OF ex_gallery_storage, of 1]
  have p1: "\<exists>v. images_page ex_env 1 ex_gallery = Inr v \<and> has_next v"
    unfolding ex_gallery_count by auto
  from images_page_has_next [OF ex_gallery_storage, of 3]
  have p3: "\<exists>v. images_page ex_env 3 ex_gallery = Inr v \<and> images v = [] \<and> \<not> has_next v"
    unfolding ex_gallery_count by auto
  show ?thesis
    by (intro conjI ex_gallery_storage ex_gallery_count p1 p3)
qed

text \<open>
  Claim C3 does not hold for negative page numbers: the bounds of the slice become
  negative and Python counts them from the end of the list. With 51 files, page \<open>-1\<close>
  asks for \<^verbatim>\<open>files[-100:-50]\<close>, which is the first file, where the claim promises an
  empty page. (For pages from 1 on and for page 0 the claim holds: see
  \<open>images_page_positive\<close> and \<open>images_page_zero\<close>.)
\<close>

theorem negative_page_lists_files:
  "images_page ex_env (- 1) ex_gallery =
     Inr \<lparr>images = [\<lparr>name = ''img00.png'', url = ''/images/img00.png''\<rparr>],
          page = - 1, has_next = True\<rparr>"
  unfolding images_page_storage [OF ex_gallery_storage] ex_gallery_entries ex_gallery_sorted
  by (simp add: ex_gallery_slice image_of_def)

end
